theory Spec2Isabelle
  imports Complex_Main "HOL-Library.Sublist" "HOL-Library.AList"
begin

section \<open>Python values: exceptions, bytes, text\<close>

text \<open>
  The module \<^verbatim>\<open>py_isfreader.py\<close> reads a Tektronix ISF waveform: a text header,
  the marker \<^verbatim>\<open>:CURVE #\<close>, a length prefix and a block of binary samples.
  Every exception the module can raise is a value of \<open>error\<close>; a function that
  can raise returns \<open>error + 'a\<close>, with \<open>Inl\<close> the exception.
  \<open>InvalidFileError\<close> is the module's own exception class, the others are
  Python's built-in ones.
\<close>

datatype error =
    InvalidFileError
  | IndexError
  | KeyError
  | ValueError
  | TypeError
  | OverflowError
  | RecursionError

text \<open>
  A \<^verbatim>\<open>bytes\<close> object is a list of 8-bit characters. \<^verbatim>\<open>decode('latin1')\<close>
  maps the byte \<open>b\<close> to the code point \<open>b\<close>, so the decoded text is the same
  list of characters; every text this module handles is Latin-1.
\<close>

type_synonym bytes = string

definition decode_latin1 :: "bytes \<Rightarrow> string" where
  "decode_latin1 b = b"

definition bindE :: "error + 'a \<Rightarrow> ('a \<Rightarrow> error + 'b) \<Rightarrow> error + 'b" where
  "bindE r f = (case r of Inl e \<Rightarrow> Inl e | Inr a \<Rightarrow> f a)"

subsection \<open>Sequence operations\<close>

text \<open>\<^verbatim>\<open>s.find(sub)\<close>: the lowest index where \<open>sub\<close> starts, or \<open>-1\<close>.\<close>

fun find_from :: "'a list \<Rightarrow> nat \<Rightarrow> 'a list \<Rightarrow> int" where
  "find_from sub i [] = (if sub = [] then int i else - 1)"
| "find_from sub i (c # cs) =
     (if prefix sub (c # cs) then int i else find_from sub (Suc i) cs)"

definition py_find :: "'a list \<Rightarrow> 'a list \<Rightarrow> int" where
  "py_find s sub = find_from sub 0 s"

text \<open>\<^verbatim>\<open>sub in s\<close> on strings.\<close>

definition py_in :: "'a list \<Rightarrow> 'a list \<Rightarrow> bool" where
  "py_in sub s = (py_find s sub \<noteq> - 1)"

text \<open>\<^verbatim>\<open>s[i]\<close>: a negative index counts from the end; out of range raises.\<close>

definition py_getitem :: "'a list \<Rightarrow> int \<Rightarrow> error + 'a" where
  "py_getitem s i =
     (let n = int (length s); j = (if i < 0 then n + i else i)
      in if 0 \<le> j \<and> j < n then Inr (s ! nat j) else Inl IndexError)"

text \<open>
  \<^verbatim>\<open>s[i:j]\<close> and \<^verbatim>\<open>s[i:]\<close>: a slice never raises; a negative bound counts
  from the end and every bound is clipped to the sequence. \<^verbatim>\<open>s[:j]\<close> is
  \<open>py_slice s 0 j\<close>.
\<close>

definition slice_index :: "int \<Rightarrow> int \<Rightarrow> nat" where
  "slice_index n i = nat (if i < 0 then max (n + i) 0 else min i n)"

definition py_slice :: "'a list \<Rightarrow> int \<Rightarrow> int \<Rightarrow> 'a list" where
  "py_slice s i j =
     (let n = int (length s)
      in drop (slice_index n i) (take (slice_index n j) s))"

definition py_slice_from :: "'a list \<Rightarrow> int \<Rightarrow> 'a list" where
  "py_slice_from s i = drop (slice_index (int (length s)) i) s"

text \<open>\<^verbatim>\<open>s.strip(chars)\<close>: drops the characters of \<open>chars\<close> from both ends.\<close>

definition py_strip :: "string \<Rightarrow> string \<Rightarrow> string" where
  "py_strip chars s =
     rev (dropWhile (\<lambda>c. c \<in> set chars) (rev (dropWhile (\<lambda>c. c \<in> set chars) s)))"

text \<open>
  \<^verbatim>\<open>s.split(sep)\<close> for a one-character separator: the pieces between the
  separators, never an empty list (\<^verbatim>\<open>''.split(';') == ['']\<close>).
\<close>

fun py_split :: "char \<Rightarrow> string \<Rightarrow> string list" where
  "py_split sep [] = [[]]"
| "py_split sep (c # cs) =
     (if c = sep then [] # py_split sep cs
      else (case py_split sep cs of
              [] \<Rightarrow> [[c]]
            | t # ts \<Rightarrow> (c # t) # ts))"

text \<open>
  \<^verbatim>\<open>s.split(sep, 1)\<close>: at most one split, at the first separator; one piece when
  the separator does not occur.
\<close>

definition py_split1 :: "char \<Rightarrow> string \<Rightarrow> string list" where
  "py_split1 sep s =
     (case dropWhile (\<lambda>c. c \<noteq> sep) s of
        [] \<Rightarrow> [s]
      | _ # rest \<Rightarrow> [takeWhile (\<lambda>c. c \<noteq> sep) s, rest])"

text \<open>
  \<^verbatim>\<open>s.replace(old, '')\<close> for a non-empty \<open>old\<close>: the occurrences are found left
  to right and do not overlap. The counter is the number of characters of the current
  occurrence still to be dropped.
\<close>

fun remove_from :: "string \<Rightarrow> nat \<Rightarrow> string \<Rightarrow> string" where
  "remove_from old k [] = []"
| "remove_from old (Suc k) (c # cs) = remove_from old k cs"
| "remove_from old 0 (c # cs) =
     (if prefix old (c # cs) then remove_from old (length old - 1) cs
      else c # remove_from old 0 cs)"

definition py_remove :: "string \<Rightarrow> string \<Rightarrow> string" where
  "py_remove s old = remove_from old 0 s"

subsection \<open>\<^verbatim>\<open>int(str)\<close>\<close>

text \<open>
  CPython parses a decimal integer literal as: optional white space, an optional sign,
  digits with single underscores between them, optional white space, end of string. The
  white space is tab, line feed, vertical tab, form feed, carriage return and space,
  and of the Latin-1 characters above 127 the two that Unicode counts as spaces (NEL
  133 and NBSP 160), which the interpreter turns into spaces before parsing. Any
  other character, NUL included, is a \<open>ValueError\<close>. (The limit on the number of
  digits of recent interpreters is not modelled.)
\<close>

definition py_isspace :: "char \<Rightarrow> bool" where
  "py_isspace c = (of_char c \<in> set [9, 10, 11, 12, 13, 32, 133, 160 :: nat])"

definition is_digit :: "char \<Rightarrow> bool" where
  "is_digit c = (48 \<le> (of_char c :: nat) \<and> (of_char c :: nat) \<le> 57)"

definition digit_val :: "char \<Rightarrow> int" where
  "digit_val c = int (of_char c) - 48"

text \<open>
  A digit part: digits, with underscores only between two digits. \<open>digits_ok prev s\<close>
  checks it, \<open>prev\<close> telling whether the character before was a digit.
\<close>

fun digits_ok :: "bool \<Rightarrow> string \<Rightarrow> bool" where
  "digits_ok prev [] = prev"
| "digits_ok prev (c # cs) =
     (if c = CHR ''_'' then prev \<and> digits_ok False cs
      else is_digit c \<and> digits_ok True cs)"

definition digits_value :: "string \<Rightarrow> int" where
  "digits_value s = foldl (\<lambda>a c. 10 * a + digit_val c) 0 (filter is_digit s)"

definition py_int :: "string \<Rightarrow> error + int" where
  "py_int s =
     (let s1 = dropWhile py_isspace s;
          neg = (case s1 of c # _ \<Rightarrow> c = CHR ''-'' | [] \<Rightarrow> False);
          s2 = (case s1 of c # cs \<Rightarrow> if c = CHR ''+'' \<or> c = CHR ''-'' then cs else s1
                | [] \<Rightarrow> s1);
          ds = takeWhile (\<lambda>c. is_digit c \<or> c = CHR ''_'') s2;
          rest = dropWhile (\<lambda>c. is_digit c \<or> c = CHR ''_'') s2
      in if digits_ok False ds \<and> dropWhile py_isspace rest = []
         then Inr (if neg then - digits_value ds else digits_value ds)
         else Inl ValueError)"

section \<open>Floating point\<close>

text \<open>
  A Python \<^verbatim>\<open>float\<close> and a numpy \<^verbatim>\<open>float64\<close> are IEEE 754 binary64 numbers.
  A finite one is kept as the rational number it denotes; the two zeros are one value
  (Python's \<^verbatim>\<open>==\<close> does not tell them apart, and this module never divides).
  Every operation computes the exact rational result and rounds it to the nearest
  binary64 number, ties to the even significand; a result of magnitude
  \<open>2 ^ 1024\<close> or more after rounding (\<open>1024 \<le> ilog2 r\<close>) is an infinity.
\<close>

datatype f64 = Fin rat | PInf | NInf | NaN

text \<open>The number of binary digits of a positive integer.\<close>

function bitlen :: "int \<Rightarrow> nat" where
  "bitlen n = (if n \<le> 0 then 0 else Suc (bitlen (n div 2)))"
  by pat_completeness auto
termination
  by (relation "measure nat") auto

definition pow2 :: "int \<Rightarrow> rat" where
  "pow2 k = (if 0 \<le> k then 2 ^ nat k else 1 / 2 ^ nat (- k))"

text \<open>\<open>ilog2 q\<close> is the integer \<open>k\<close> with \<open>2 ^ k \<le> q < 2 ^ (k + 1)\<close>, for \<open>0 < q\<close>.\<close>

definition ilog2 :: "rat \<Rightarrow> int" where
  "ilog2 q =
     (let k = int (bitlen (fst (quotient_of q))) - int (bitlen (snd (quotient_of q)))
      in if pow2 k \<le> q then k else k - 1)"

definition round_half_even :: "rat \<Rightarrow> int" where
  "round_half_even x =
     (let f = \<lfloor>x\<rfloor>; r = x - of_int f
      in if r < 1 / 2 then f
         else if 1 / 2 < r then f + 1
         else if even f then f else f + 1)"

text \<open>
  The spacing of the binary64 numbers around \<open>q\<close> is \<open>2 ^ e\<close> with
  \<open>e = ilog2 \<bar>q\<bar> - 52\<close>, and \<open>2 ^ - 1074\<close> in the subnormal range.
\<close>

definition f64_round :: "rat \<Rightarrow> f64" where
  "f64_round q =
     (if q = 0 then Fin 0
      else
        (let e = max (ilog2 \<bar>q\<bar> - 52) (- 1074);
             r = of_int (round_half_even (\<bar>q\<bar> / pow2 e)) * pow2 e
         in if 1024 \<le> ilog2 r then (if 0 < q then PInf else NInf)
            else Fin (if 0 < q then r else - r)))"

definition f64_of_int :: "int \<Rightarrow> f64" where
  "f64_of_int n = f64_round (of_int n)"

fun f64_neg :: "f64 \<Rightarrow> f64" where
  "f64_neg (Fin a) = Fin (- a)"
| "f64_neg PInf = NInf"
| "f64_neg NInf = PInf"
| "f64_neg NaN = NaN"

fun f64_add :: "f64 \<Rightarrow> f64 \<Rightarrow> f64" where
  "f64_add (Fin a) (Fin b) = f64_round (a + b)"
| "f64_add NaN y = NaN"
| "f64_add x NaN = NaN"
| "f64_add PInf NInf = NaN"
| "f64_add NInf PInf = NaN"
| "f64_add PInf y = PInf"
| "f64_add NInf y = NInf"
| "f64_add x PInf = PInf"
| "f64_add x NInf = NInf"

definition f64_sub :: "f64 \<Rightarrow> f64 \<Rightarrow> f64" where
  "f64_sub x y = f64_add x (f64_neg y)"

text \<open>The sign of a product with an infinity; \<open>0 * inf\<close> is not a number.\<close>

definition inf_times :: "bool \<Rightarrow> f64 \<Rightarrow> f64" where
  "inf_times pos y =
     (case y of
        NaN \<Rightarrow> NaN
      | PInf \<Rightarrow> (if pos then PInf else NInf)
      | NInf \<Rightarrow> (if pos then NInf else PInf)
      | Fin b \<Rightarrow> (if b = 0 then NaN else if (0 < b) = pos then PInf else NInf))"

fun f64_mul :: "f64 \<Rightarrow> f64 \<Rightarrow> f64" where
  "f64_mul (Fin a) (Fin b) = f64_round (a * b)"
| "f64_mul NaN y = NaN"
| "f64_mul x NaN = NaN"
| "f64_mul PInf y = inf_times True y"
| "f64_mul NInf y = inf_times False y"
| "f64_mul x PInf = inf_times True x"
| "f64_mul x NInf = inf_times False x"

subsection \<open>\<^verbatim>\<open>float(str)\<close>\<close>

text \<open>
  CPython strips white space (the same as for \<^verbatim>\<open>int\<close>) from both ends, allows
  single underscores between digits, and then reads an optional sign followed by
  \<^verbatim>\<open>inf\<close>, \<^verbatim>\<open>infinity\<close> or \<^verbatim>\<open>nan\<close> in any case, or by a decimal number:
  digits with an optional point (at least one digit in all) and an optional exponent
  \<^verbatim>\<open>e\<close> or \<^verbatim>\<open>E\<close> with an optional sign and at least one digit. The decimal
  value is rounded correctly. Anything else is a \<open>ValueError\<close>.
\<close>

definition to_lower :: "char \<Rightarrow> char" where
  "to_lower c =
     (if 65 \<le> (of_char c :: nat) \<and> (of_char c :: nat) \<le> 90
      then char_of (of_char c + 32 :: nat) else c)"

fun underscores_ok :: "char \<Rightarrow> string \<Rightarrow> bool" where
  "underscores_ok prev [] = (prev \<noteq> CHR ''_'')"
| "underscores_ok prev (c # cs) =
     ((if c = CHR ''_'' then is_digit prev else prev \<noteq> CHR ''_'' \<or> is_digit c)
      \<and> underscores_ok c cs)"

text \<open>The exponent part: empty, or \<^verbatim>\<open>e\<close>, an optional sign and digits to the end.\<close>

definition float_exponent :: "string \<Rightarrow> error + int" where
  "float_exponent s =
     (case s of
        [] \<Rightarrow> Inr 0
      | c # cs \<Rightarrow>
          (if to_lower c = CHR ''e'' then
             (let neg = (case cs of d # _ \<Rightarrow> d = CHR ''-'' | [] \<Rightarrow> False);
                  ds = (case cs of d # ds' \<Rightarrow> if d = CHR ''+'' \<or> d = CHR ''-'' then ds' else cs
                        | [] \<Rightarrow> cs)
              in if ds \<noteq> [] \<and> list_all is_digit ds
                 then Inr (if neg then - digits_value ds else digits_value ds)
                 else Inl ValueError)
           else Inl ValueError))"

definition float_decimal :: "string \<Rightarrow> error + rat" where
  "float_decimal s =
     (let ip = takeWhile is_digit s;
          s1 = dropWhile is_digit s;
          pt = (case s1 of c # _ \<Rightarrow> c = CHR ''.'' | [] \<Rightarrow> False);
          fp = (if pt then takeWhile is_digit (tl s1) else []);
          s2 = (if pt then dropWhile is_digit (tl s1) else s1)
      in if ip = [] \<and> fp = [] then Inl ValueError
         else bindE (float_exponent s2)
                (\<lambda>x. Inr (of_int (digits_value (ip @ fp)) *
                         (let p = x - int (length fp)
                          in if 0 \<le> p then 10 ^ nat p else 1 / 10 ^ nat (- p)))))"

definition float_body :: "string \<Rightarrow> error + f64" where
  "float_body s =
     (let neg = (case s of c # _ \<Rightarrow> c = CHR ''-'' | [] \<Rightarrow> False);
          u = (case s of c # cs \<Rightarrow> if c = CHR ''+'' \<or> c = CHR ''-'' then cs else s
               | [] \<Rightarrow> s);
          w = map to_lower u
      in if w = ''inf'' \<or> w = ''infinity'' then Inr (if neg then NInf else PInf)
         else if w = ''nan'' then Inr NaN
         else bindE (float_decimal u) (\<lambda>q. Inr (f64_round (if neg then - q else q))))"

definition py_float :: "string \<Rightarrow> error + f64" where
  "py_float s =
     (let t = rev (dropWhile py_isspace (rev (dropWhile py_isspace s)))
      in if CHR ''_'' \<in> set t
         then (if underscores_ok (CHR 0x00) t then float_body (filter (\<lambda>c. c \<noteq> CHR ''_'') t)
               else Inl ValueError)
         else float_body t)"

section \<open>The header tables\<close>

text \<open>
  A header value is \<^verbatim>\<open>None\<close> (the field is missing), an \<^verbatim>\<open>int\<close>, a
  \<^verbatim>\<open>float\<close> or a \<^verbatim>\<open>str\<close>. A header is the \<^verbatim>\<open>dict\<close> that
  \<^verbatim>\<open>dict.fromkeys(HEADER_DISPATCHER.keys())\<close> creates and the parser updates in
  place: an association list whose keys are those of \<open>HEADER_DISPATCHER\<close>, in its
  order.
\<close>

datatype hval = HNone | HInt int | HFloat f64 | HStr string

type_synonym header = "(string \<times> hval) list"

text \<open>
  The converters of \<open>HEADER_DISPATCHER\<close>: \<^verbatim>\<open>int\<close>, \<^verbatim>\<open>str\<close>, \<^verbatim>\<open>float\<close>
  and \<^verbatim>\<open>lambda s: str.strip(s, '"')\<close>.
\<close>

datatype converter = To_int | To_str | To_float | Strip_quotes

definition HEADER_DISPATCHER :: "(string \<times> converter) list" where
  "HEADER_DISPATCHER =
     [(''BYT_NR'', To_int), (''ENCDG'', To_str), (''BN_FMT'', To_str), (''BYT_OR'', To_str),
      (''WFID'', To_str), (''NR_PT'', To_int), (''PT_FMT'', To_str),
      (''XUNIT'', Strip_quotes), (''XINCR'', To_float), (''XZERO'', To_float),
      (''PT_OFF'', To_int), (''YUNIT'', Strip_quotes), (''YMULT'', To_float),
      (''YOFF'', To_float), (''YZERO'', To_float),
      (''VSCALE'', To_float), (''HSCALE'', To_float), (''VPOS'', To_float),
      (''VOFFSET'', To_float), (''HDELAY'', To_float), ('':CURVE'', To_str)]"

definition convert :: "converter \<Rightarrow> string \<Rightarrow> error + hval" where
  "convert c s =
     (case c of
        To_int \<Rightarrow> bindE (py_int s) (\<lambda>n. Inr (HInt n))
      | To_str \<Rightarrow> Inr (HStr s)
      | To_float \<Rightarrow> bindE (py_float s) (\<lambda>x. Inr (HFloat x))
      | Strip_quotes \<Rightarrow> Inr (HStr (py_strip [CHR 0x22] s)))"

text \<open>
  The values of the key tables are canonical field names, except the two entries of
  \<open>SCOPE2_HD\<close> whose value is a type object (\<^verbatim>\<open>str\<close>, \<^verbatim>\<open>int\<close>), which is
  never a key of \<open>HEADER_DISPATCHER\<close>.
\<close>

datatype corrected = Field string | Type_object

definition SCOPE1_HD :: "(string \<times> corrected) list" where
  "SCOPE1_HD =
     [(''BYT_NR'', Field ''BYT_NR''), (''ENCDG'', Field ''ENCDG''),
      (''BN_FMT'', Field ''BN_FMT''), (''BYT_OR'', Field ''BYT_OR''),
      (''WFID'', Field ''WFID''), (''NR_PT'', Field ''NR_PT''),
      (''PT_FMT'', Field ''PT_FMT''), (''XUNIT'', Field ''XUNIT''),
      (''XINCR'', Field ''XINCR''), (''XZERO'', Field ''XZERO''),
      (''PT_OFF'', Field ''PT_OFF''), (''YUNIT'', Field ''YUNIT''),
      (''YMULT'', Field ''YMULT''), (''YOFF'', Field ''YOFF''),
      (''YZERO'', Field ''YZERO''), (''VSCALE'', Field ''VSCALE''),
      (''HSCALE'', Field ''HSCALE''), (''VPOS'', Field ''VPOS''),
      (''VOFFSET'', Field ''VOFFSET''), (''HDELAY'', Field ''HDELAY''),
      ('':CURVE'', Field '':CURVE'')]"

definition SCOPE2_HD :: "(string \<times> corrected) list" where
  "SCOPE2_HD =
     [(''BYT_N'', Field ''BYT_NR''), (''ENC'', Field ''ENCDG''),
      (''BN_F'', Field ''BN_FMT''), (''BYT_O'', Field ''BYT_OR''),
      (''WFI'', Field ''WFID''), (''NR_P'', Field ''NR_PT''),
      (''PT_F'', Field ''PT_FMT''), (''XUN'', Field ''XUNIT''),
      (''XIN'', Field ''XINCR''), (''XZE'', Field ''XZERO''),
      (''PT_O'', Field ''PT_OFF''), (''YUN'', Field ''YUNIT''),
      (''YMU'', Field ''YMULT''), (''YOF'', Field ''YOFF''),
      (''YZE'', Field ''YZERO''), (''VSCALE'', Field ''VSCALE''),
      (''HSCALE'', Field ''HSCALE''), (''VPOS'', Field ''VPOS''),
      (''VOFFSET'', Field ''VOFFSET''), (''HDELAY'', Field ''HDELAY''),
      ('':CURV'', Field '':CURVE''),
      (''COMP'', Type_object), (''FILTERF'', Type_object)]"

text \<open>
  \<^verbatim>\<open>CORRECTING_HD = SCOPE1_HD; CORRECTING_HD.update(SCOPE2_HD)\<close>: the entries of
  the second table win.
\<close>

definition CORRECTING_HD :: "string \<rightharpoonup> corrected" where
  "CORRECTING_HD = map_of SCOPE1_HD ++ map_of SCOPE2_HD"

text \<open>\<^verbatim>\<open>d[key]\<close> on a dictionary.\<close>

definition py_lookup :: "('k \<times> 'v) list \<Rightarrow> 'k \<Rightarrow> error + 'v" where
  "py_lookup d k = (case map_of d k of None \<Rightarrow> Inl KeyError | Some v \<Rightarrow> Inr v)"

section \<open>\<^verbatim>\<open>parse_isf_header\<close>\<close>

text \<open>
  The body of the loop over the pieces of the header text. The test
  \<^verbatim>\<open>if kv_pair.find(' ')\<close> is true for every result of \<^verbatim>\<open>find\<close> but 0; the
  tuple assignment \<^verbatim>\<open>(key, val) = kv_pair.split(' ', 1)\<close> raises \<open>ValueError\<close>
  unless the split gives two pieces.
\<close>

definition header_item :: "string \<Rightarrow> header \<Rightarrow> string \<Rightarrow> error + header" where
  "header_item remove header kv_pair =
     (if py_find kv_pair '' '' \<noteq> 0 then
        (case py_split1 (CHR '' '') kv_pair of
           [key, val] \<Rightarrow>
             (case CORRECTING_HD (py_remove key remove) of
                Some (Field k) \<Rightarrow>
                  (case map_of HEADER_DISPATCHER k of
                     Some c \<Rightarrow> bindE (convert c val) (\<lambda>v. Inr (AList.update k v header))
                   | None \<Rightarrow> Inr header)
              | _ \<Rightarrow> Inr header)
         | _ \<Rightarrow> Inl ValueError)
      else Inr header)"

fun header_loop :: "string \<Rightarrow> header \<Rightarrow> string list \<Rightarrow> error + header" where
  "header_loop remove header [] = Inr header"
| "header_loop remove header (kv_pair # rest) =
     bindE (header_item remove header kv_pair) (\<lambda>h. header_loop remove h rest)"

text \<open>
  The check for missing fields after the loop is guarded by \<^verbatim>\<open>if False and ...\<close>
  and never runs.
\<close>

definition parse_isf_header :: "string \<Rightarrow> error + header" where
  "parse_isf_header header_text =
     (let remove = (if py_in '':WFMPRE:'' header_text then '':WFMPRE:'' else '':WFMP:'')
      in header_loop remove (map (\<lambda>k. (k, HNone)) (map fst HEADER_DISPATCHER))
           (py_split (CHR '';'') (py_strip '';'' header_text)))"

section \<open>\<^verbatim>\<open>split_isf_header\<close>\<close>

text \<open>
  Lines 110 to 119: the offset of the length prefix. The byte after the five bytes of
  the marker is read before the result of \<^verbatim>\<open>find\<close> is tested, at index
  \<open>pos + 5\<close> (index 4 when the marker is absent).
\<close>

definition prefix_offset :: "bytes \<Rightarrow> error + int" where
  "prefix_offset data =
     (let curve = '':CURV''; pos = py_find data curve
      in bindE (py_getitem data (pos + int (length curve)))
           (\<lambda>c. if c = CHR ''E'' then Inr (pos + int (length '':CURVE #''))
                else if pos \<noteq> - 1 then Inr (pos + int (length '':CURV #''))
                else Inl InvalidFileError))"

text \<open>Lines 122 and 123: \<open>pad_char\<close> and \<open>data_len\<close>.\<close>

definition length_prefix :: "bytes \<Rightarrow> int \<Rightarrow> error + int \<times> int" where
  "length_prefix data pos =
     bindE (py_int (decode_latin1 (py_slice data pos (pos + 1))))
       (\<lambda>d. let pad_char = d + 1
            in bindE (py_int (decode_latin1 (py_slice data (pos + 1) (pos + pad_char))))
                 (\<lambda>data_len. Inr (pad_char, data_len)))"

text \<open>
  The function calls itself for an \<^verbatim>\<open>ENV\<close> header, on a slice that need not be
  shorter than the buffer, so the recursion is bounded only by the interpreter's
  recursion limit. The first argument is the number of nested calls of
  \<open>split_isf_header\<close> the interpreter still allows; at 0 the call raises
  \<open>RecursionError\<close>, which the \<^verbatim>\<open>except (IndexError, InvalidFileError)\<close> clause
  does not catch.
\<close>

fun split_isf_header :: "nat \<Rightarrow> bytes \<Rightarrow> error + header \<times> bytes" where
  "split_isf_header 0 data = Inl RecursionError"
| "split_isf_header (Suc depth) data =
     bindE (prefix_offset data) (\<lambda>pos.
     bindE (length_prefix data pos) (\<lambda>(pad_char, data_len).
       let split = pos + pad_char;
           header_text = py_slice data 0 split;
           bin_data = py_slice data split (split + data_len)
       in bindE (parse_isf_header (decode_latin1 header_text)) (\<lambda>header.
          bindE (py_lookup header ''PT_FMT'') (\<lambda>pt_fmt.
            if pt_fmt = HStr ''ENV'' then
              (case split_isf_header depth (py_slice_from data (split + data_len)) of
                 Inr r \<Rightarrow> Inr r
               | Inl IndexError \<Rightarrow> Inl InvalidFileError
               | Inl InvalidFileError \<Rightarrow> Inl InvalidFileError
               | Inl e \<Rightarrow> Inl e)
            else Inr (header, bin_data)))))"

section \<open>\<^verbatim>\<open>parse_isf_data\<close>\<close>

subsection \<open>The numpy operations it uses\<close>

text \<open>
  The model follows numpy 2.0 to 2.2 on a 64-bit platform, the releases whose
  \<^verbatim>\<open>fromstring\<close> still reads binary data. Two choices differ in older releases
  and are marked below. The theorem on the size of the payload rests on the second
  (columns of different lengths are refused); no other theorem rests on either.

  The data type built from \<^verbatim>\<open>'{}{}{}'.format(byte_order, byte_format, byte_size)\<close>:
  numpy understands the string only for an item size of 1, 2, 4 or 8 bytes, and raises
  \<open>TypeError\<close> for any other text (\<^verbatim>\<open><uNone\<close>, \<^verbatim>\<open><i3\<close>, \<^verbatim>\<open><u0\<close>).
\<close>

record dtype =
  big_endian :: bool
  signed :: bool
  itemsize :: nat

definition np_dtype :: "bool \<Rightarrow> bool \<Rightarrow> hval \<Rightarrow> error + dtype" where
  "np_dtype big is_signed byte_size =
     (case byte_size of
        HInt n \<Rightarrow>
          (if n \<in> set [1, 2, 4, 8]
           then Inr \<lparr>big_endian = big, signed = is_signed, itemsize = nat n\<rparr>
           else Inl TypeError)
      | _ \<Rightarrow> Inl TypeError)"

text \<open>One item: the bytes as a base-256 number, two's complement when signed.\<close>

definition unsigned_le :: "bytes \<Rightarrow> int" where
  "unsigned_le bs = foldr (\<lambda>b acc. int (of_char b) + 256 * acc) bs 0"

definition decode_item :: "dtype \<Rightarrow> bytes \<Rightarrow> int" where
  "decode_item dt bs =
     (let u = unsigned_le (if big_endian dt then rev bs else bs)
      in if signed dt \<and> 2 ^ (8 * length bs - 1) \<le> u then u - 2 ^ (8 * length bs) else u)"

text \<open>
  \<^verbatim>\<open>np.fromstring(data, dtype=dtype)\<close>: as many items as the data holds;
  \<open>ValueError\<close> when its size is not a multiple of the item size.
\<close>

definition np_fromstring :: "bytes \<Rightarrow> dtype \<Rightarrow> error + int list" where
  "np_fromstring data dt =
     (if length data mod itemsize dt \<noteq> 0 then Inl ValueError
      else Inr (map (\<lambda>i. decode_item dt (take (itemsize dt) (drop (i * itemsize dt) data)))
                  [0 ..< length data div itemsize dt]))"

text \<open>
  \<^verbatim>\<open>np.arange(n)\<close>: the \<^verbatim>\<open>int64\<close> array \<open>0, ..., n - 1\<close>, empty for \<open>n \<le> 0\<close>.
  The library raises for a count that does not fit in memory; the model has no bound.
\<close>

definition np_arange :: "hval \<Rightarrow> error + int list" where
  "np_arange n = (case n of HInt k \<Rightarrow> Inr (map int [0 ..< nat k]) | _ \<Rightarrow> Inl TypeError)"

definition wrap64 :: "int \<Rightarrow> int" where
  "wrap64 x = (x + 2 ^ 63) mod 2 ^ 64 - 2 ^ 63"

text \<open>
  An array and a scalar taken from the header. With \<^verbatim>\<open>None\<close> numpy applies
  Python's operator to every element, which raises \<open>TypeError\<close> at the first one, so
  an empty array passes. \<^verbatim>\<open>int64\<close> arithmetic wraps around; a Python
  \<^verbatim>\<open>int\<close> outside \<^verbatim>\<open>int64\<close> is refused with \<open>OverflowError\<close> (releases
  before 2.0 compute with Python integers instead). The header holds no value of
  another type for these fields; the model answers \<open>TypeError\<close> there.
\<close>

definition sub_int :: "int list \<Rightarrow> hval \<Rightarrow> error + int list" where
  "sub_int a v =
     (case v of
        HInt p \<Rightarrow>
          (if - (2 ^ 63) \<le> p \<and> p < 2 ^ 63 then Inr (map (\<lambda>i. wrap64 (i - p)) a)
           else Inl OverflowError)
      | HNone \<Rightarrow> (if a = [] then Inr [] else Inl TypeError)
      | _ \<Rightarrow> Inl TypeError)"

definition with_float :: "(f64 \<Rightarrow> f64 \<Rightarrow> f64) \<Rightarrow> f64 list \<Rightarrow> hval \<Rightarrow> error + f64 list" where
  "with_float op a v =
     (case v of
        HFloat y \<Rightarrow> Inr (map (\<lambda>x. op x y) a)
      | HNone \<Rightarrow> (if a = [] then Inr [] else Inl TypeError)
      | _ \<Rightarrow> Inl TypeError)"

text \<open>
  \<^verbatim>\<open>np.array((xdata, ydata)).T\<close>: one row per sample. Columns of different
  lengths raise \<open>ValueError\<close> (since numpy 1.24; older releases build an array of
  two objects).
\<close>

definition np_columns :: "'a list \<Rightarrow> 'a list \<Rightarrow> error + ('a \<times> 'a) list" where
  "np_columns xs ys = (if length xs = length ys then Inr (zip xs ys) else Inl ValueError)"

subsection \<open>The function\<close>

text \<open>
  Lines 194 to 211, from the header and the binary data that \<open>split_isf_header\<close>
  returned to the array of rows. An integer array meets a Python \<^verbatim>\<open>float\<close> as
  \<^verbatim>\<open>float64\<close>.
\<close>

definition sample_array :: "header \<Rightarrow> bytes \<Rightarrow> error + (f64 \<times> f64) list" where
  "sample_array header data =
     bindE (py_lookup header ''NR_PT'') (\<lambda>num_rows.
     bindE (py_lookup header ''YOFF'') (\<lambda>yoff.
     bindE (py_lookup header ''YMULT'') (\<lambda>ymult.
     bindE (py_lookup header ''YZERO'') (\<lambda>yzero.
     bindE (py_lookup header ''PT_OFF'') (\<lambda>pt_off.
     bindE (py_lookup header ''XINCR'') (\<lambda>xincr.
     bindE (py_lookup header ''XZERO'') (\<lambda>xzero.
     bindE (py_lookup header ''BYT_OR'') (\<lambda>byt_or.
     bindE (py_lookup header ''BN_FMT'') (\<lambda>bn_fmt.
     bindE (py_lookup header ''BYT_NR'') (\<lambda>byte_size.
     bindE (np_dtype (byt_or = HStr ''MSB'') (bn_fmt = HStr ''RI'') byte_size) (\<lambda>dt.
     bindE (np_fromstring data dt) (\<lambda>raw.
     bindE (np_arange num_rows) (\<lambda>idx.
     bindE (sub_int idx pt_off) (\<lambda>x1.
     bindE (with_float f64_mul (map f64_of_int x1) xincr) (\<lambda>x2.
     bindE (with_float f64_add x2 xzero) (\<lambda>xdata.
     bindE (with_float f64_sub (map f64_of_int raw) yoff) (\<lambda>y1.
     bindE (with_float f64_mul y1 ymult) (\<lambda>y2.
     bindE (with_float f64_add y2 yzero) (\<lambda>ydata.
     np_columns xdata ydata)))))))))))))))))))"

text \<open>
  The whole function on a \<^verbatim>\<open>bytes\<close> buffer (a \<^verbatim>\<open>str\<close> argument is first
  encoded as Latin-1). The header comes with the array when \<open>with_header\<close> is set.
\<close>

definition parse_isf_data ::
    "nat \<Rightarrow> bytes \<Rightarrow> bool \<Rightarrow> error + (f64 \<times> f64) list \<times> header option" where
  "parse_isf_data depth data with_header =
     bindE (split_isf_header depth data) (\<lambda>(header, bin_data).
     bindE (sample_array header bin_data) (\<lambda>array.
       Inr (array, if with_header then Some header else None)))"

section \<open>Inputs and notions of the statements\<close>

text \<open>The scenario of the specification: the header text and the three sample bytes.\<close>

definition scenario_text :: string where
  "scenario_text =
     '':WFMPRE:BYT_NR 1;BN_FMT RI;BYT_OR LSB;NR_PT 3;PT_OFF 0;XINCR 1.0;XZERO 0.0;YOFF 0.0;YMULT 2.0;YZERO 0.0;PT_FMT Y;:CURVE #13''"

definition scenario_buffer :: bytes where
  "scenario_buffer = scenario_text @ [CHR 0x01, CHR 0xFF, CHR 0x02]"

text \<open>The header in which every field is missing.\<close>

definition empty_header :: header where
  "empty_header = map (\<lambda>k. (k, HNone)) (map fst HEADER_DISPATCHER)"

text \<open>
  The two things \<open>parse_isf_header\<close> computes before its loop: the namespace prefix
  it removes from the keys, and the pieces of the text between semicolons.
\<close>

definition header_namespace :: "string \<Rightarrow> string" where
  "header_namespace text = (if py_in '':WFMPRE:'' text then '':WFMPRE:'' else '':WFMP:'')"

definition header_pieces :: "string \<Rightarrow> string list" where
  "header_pieces text = py_split (CHR '';'') (py_strip '';'' text)"

text \<open>
  The key of a piece: the text before its first space, without the namespace prefix.
  A piece names the field \<open>k\<close> when \<open>CORRECTING_HD\<close> maps its key to \<open>Field k\<close>.
\<close>

definition piece_key :: "string \<Rightarrow> string \<Rightarrow> string option" where
  "piece_key remove kv =
     (case py_split1 (CHR '' '') kv of [key, val] \<Rightarrow> Some (py_remove key remove) | _ \<Rightarrow> None)"

text \<open>
  The value of a piece suits its field: the field takes an \<^verbatim>\<open>int\<close> or a
  \<^verbatim>\<open>float\<close> and the text after the first space converts, or the piece names no such
  field.
\<close>

definition value_accepted :: "string \<Rightarrow> string \<Rightarrow> bool" where
  "value_accepted remove kv =
     (case py_split1 (CHR '' '') kv of
        [key, val] \<Rightarrow>
          (case CORRECTING_HD (py_remove key remove) of
             Some (Field k) \<Rightarrow>
               (case map_of HEADER_DISPATCHER k of
                  Some To_int \<Rightarrow> py_int val \<noteq> Inl ValueError
                | Some To_float \<Rightarrow> py_float val \<noteq> Inl ValueError
                | _ \<Rightarrow> True)
           | _ \<Rightarrow> True)
      | _ \<Rightarrow> True)"

text \<open>The loop body does not raise on the piece.\<close>

definition piece_accepted :: "string \<Rightarrow> string \<Rightarrow> bool" where
  "piece_accepted remove kv =
     (case header_item remove empty_header kv of Inl e \<Rightarrow> False | Inr h \<Rightarrow> True)"

text \<open>
  The length prefix as claim C5 words it: the digit \<open>d\<close> gives \<open>pad_char = d + 1\<close>
  and \<open>data_len\<close> is read from the next \<open>pad_char\<close> bytes. (The function reads
  the next \<open>d\<close> bytes: see \<open>length_prefix\<close>.)
\<close>

definition claimed_length_prefix :: "bytes \<Rightarrow> int \<Rightarrow> error + int \<times> int" where
  "claimed_length_prefix data pos =
     bindE (py_int (decode_latin1 (py_slice data pos (pos + 1))))
       (\<lambda>d. let pad_char = d + 1
            in bindE (py_int (decode_latin1 (py_slice data (pos + 1) (pos + 1 + pad_char))))
                 (\<lambda>data_len. Inr (pad_char, data_len)))"

text \<open>The header of the scenario, as \<open>parse_isf_header\<close> builds it.\<close>

definition scenario_header :: header where
  "scenario_header =
     [(''BYT_NR'', HInt 1), (''ENCDG'', HNone), (''BN_FMT'', HStr ''RI''),
      (''BYT_OR'', HStr ''LSB''), (''WFID'', HNone), (''NR_PT'', HInt 3),
      (''PT_FMT'', HStr ''Y''), (''XUNIT'', HNone), (''XINCR'', HFloat (Fin 1)),
      (''XZERO'', HFloat (Fin 0)), (''PT_OFF'', HInt 0), (''YUNIT'', HNone),
      (''YMULT'', HFloat (Fin 2)), (''YOFF'', HFloat (Fin 0)), (''YZERO'', HFloat (Fin 0)),
      (''VSCALE'', HNone), (''HSCALE'', HNone), (''VPOS'', HNone), (''VOFFSET'', HNone),
      (''HDELAY'', HNone), ('':CURVE'', HStr ''#13'')]"



text \<open>
  The two ways of writing a header that claim C8 compares. A field is written as its
  key, a space and its value; the pieces are joined by semicolons; the namespace prefix
  stands before the keys that are marked (real files carry it before the first key only,
  or before every key). The long spelling of a field is its canonical name; the short
  spelling is the key of \<open>SCOPE2_HD\<close> for it.
\<close>

definition short_key :: "string \<Rightarrow> string" where
  "short_key k =
     (case filter (\<lambda>(a, c). c = Field k) SCOPE2_HD of [] \<Rightarrow> k | (a, c) # _ \<Rightarrow> a)"

fun join_pieces :: "string list \<Rightarrow> string" where
  "join_pieces [] = []"
| "join_pieces [p] = p"
| "join_pieces (p # q # ps) = p @ CHR '';'' # join_pieces (q # ps)"

definition field_piece ::
    "string \<Rightarrow> (string \<Rightarrow> string) \<Rightarrow> bool \<times> string \<times> string \<Rightarrow> string" where
  "field_piece ns spelling f =
     (case f of (prefixed, k, v) \<Rightarrow> (if prefixed then ns else []) @ spelling k @ CHR '' '' # v)"

definition long_text :: "(bool \<times> string \<times> string) list \<Rightarrow> string" where
  "long_text fs = join_pieces (map (field_piece '':WFMPRE:'' (\<lambda>k. k)) fs)"

definition short_text :: "(bool \<times> string \<times> string) list \<Rightarrow> string" where
  "short_text fs = join_pieces (map (field_piece '':WFMP:'' short_key) fs)"

text \<open>
  A field that can be written so: a canonical field, with a value that holds no
  semicolon and not the text \<^verbatim>\<open>:WFMPRE:\<close>.
\<close>

definition writable :: "bool \<times> string \<times> string \<Rightarrow> bool" where
  "writable f =
     (case f of (prefixed, k, v) \<Rightarrow>
        k \<in> set (map fst HEADER_DISPATCHER) \<and> CHR '';'' \<notin> set v \<and> \<not> py_in '':WFMPRE:'' v)"

section \<open>Properties of the floating-point model\<close>

lemma bitlen_bounds: "0 < n \<Longrightarrow> 2 ^ (bitlen n - 1) \<le> n \<and> n < 2 ^ bitlen n"
proof (induction n rule: bitlen.induct)
  case (1 n)
  show ?case
  proof (cases "n div 2 \<le> 0")
    case True
    with "1.prems" have "n = 1" by auto
    then show ?thesis by (simp add: bitlen.simps [of 1] bitlen.simps [of 0])
  next
    case False
    then have pos: "0 < n div 2" by simp
    with "1.IH" "1.prems" have ih: "2 ^ (bitlen (n div 2) - 1) \<le> n div 2" "n div 2 < 2 ^ bitlen (n div 2)"
      by auto
    from pos have b: "0 < bitlen (n div 2)"
      by (simp add: bitlen.simps [of "n div 2"])
    have eq: "bitlen n = Suc (bitlen (n div 2))"
      using "1.prems" by (simp add: bitlen.simps [of n])
    from b obtain j where j: "bitlen (n div 2) = Suc j"
      by (cases "bitlen (n div 2)") auto
    from ih show ?thesis
      unfolding eq j by auto
  qed
qed

lemma round_half_even_int: "round_half_even (of_int j) = j"
  by (simp add: round_half_even_def)

lemma pow2_nonneg: "0 \<le> k \<Longrightarrow> pow2 k = 2 ^ nat k"
  by (simp add: pow2_def)

lemma ilog2_int:
  assumes "0 < m"
  shows "ilog2 (of_int m) = int (bitlen m) - 1"
proof -
  from bitlen_bounds [OF assms] have b: "2 ^ (bitlen m - 1) \<le> m" "m < 2 ^ bitlen m"
    by auto
  from assms have pos: "0 < bitlen m"
    by (simp add: bitlen.simps [of m])
  have one: "bitlen 1 = 1"
    by (simp add: bitlen.simps [of 1] bitlen.simps [of 0])
  have "pow2 (int (bitlen m) - 1) = of_int (2 ^ (bitlen m - 1))"
    using pos by (simp add: pow2_def nat_diff_distrib)
  also have "\<dots> \<le> of_int m"
    using b(1) by (simp only: of_int_le_iff)
  finally show ?thesis
    by (simp add: ilog2_def one Let_def)
qed

text \<open>
  An integer of magnitude below \<open>2 ^ 53\<close> is a binary64 number: the conversion of
  such a sample or index to \<^verbatim>\<open>float64\<close> is exact.
\<close>

theorem f64_of_int_exact:
  assumes "\<bar>n\<bar> < 2 ^ 53"
  shows "f64_of_int n = Fin (of_int n)"
proof (cases "n = 0")
  case True
  then show ?thesis by (simp add: f64_of_int_def f64_round_def)
next
  case False
  define m where "m = \<bar>n\<bar>"
  with False have m: "0 < m" "m < 2 ^ 53" using assms by auto
  define l where "l = bitlen m"
  from bitlen_bounds [OF m(1)] have b: "2 ^ (l - 1) \<le> m" "m < 2 ^ l"
    by (auto simp: l_def)
  from m(1) have lpos: "0 < l"
    by (simp add: l_def bitlen.simps [of m])
  have "l \<le> 53"
  proof (rule ccontr)
    assume "\<not> l \<le> 53"
    then have "53 \<le> l - 1" by simp
    then have "(2 :: int) ^ 53 \<le> 2 ^ (l - 1)"
      by (intro power_increasing) simp_all
    with b(1) m(2) show False by simp
  qed
  have abs: "\<bar>of_int n :: rat\<bar> = of_int m"
    by (simp add: m_def)
  have il: "ilog2 (of_int m) = int l - 1"
    using ilog2_int [OF m(1)] by (simp add: l_def)
  define d where "d = 53 - l"
  have e: "max (int l - 1 - 52) (- 1074) = - int d"
    using \<open>l \<le> 53\<close> lpos by (simp add: d_def)
  have p: "pow2 (- int d) = 1 / 2 ^ d"
    by (cases "d = 0") (simp_all add: pow2_def)
  have q: "of_int m / (1 / 2 ^ d) = (of_int (m * 2 ^ d) :: rat)"
    by simp
  have r: "of_int (round_half_even (of_int m / pow2 (- int d))) * pow2 (- int d)
      = (of_int m :: rat)"
    unfolding p q round_half_even_int by simp
  have nz: "(of_int n :: rat) \<noteq> 0"
    using False by simp
  have "f64_round (of_int n)
      = (if 1024 \<le> int l - 1 then (if 0 < (of_int n :: rat) then PInf else NInf)
         else Fin (if 0 < (of_int n :: rat) then of_int m else - of_int m))"
    unfolding f64_round_def abs il e Let_def r using nz by simp
  also have "\<dots> = Fin (of_int n)"
    using \<open>l \<le> 53\<close> by (auto simp: m_def)
  finally show ?thesis
    by (simp add: f64_of_int_def)
qed

section \<open>Properties of \<open>parse_isf_header\<close>\<close>

lemma bindE_simps [simp]:
  "bindE (Inl e) f = Inl e" "bindE (Inr a) f = f a"
  by (simp_all add: bindE_def)

lemma bindE_eq_Inr:
  "bindE r f = Inr b \<longleftrightarrow> (\<exists>a. r = Inr a \<and> f a = Inr b)"
  by (cases r) simp_all

lemma parse_isf_header_loop:
  "parse_isf_header text = header_loop (header_namespace text) empty_header (header_pieces text)"
  by (simp add: parse_isf_header_def header_namespace_def header_pieces_def empty_header_def)

lemma py_find_space_first: "py_find (CHR '' '' # rest) '' '' = 0"
  by (simp add: py_find_def)

lemma py_find_zero_iff: "py_find kv '' '' = 0 \<longleftrightarrow> prefix '' '' kv"
proof (cases kv)
  case Nil
  then show ?thesis by (simp add: py_find_def)
next
  case (Cons c cs)
  have "find_from '' '' (Suc 0) cs \<noteq> 0" for cs
  proof -
    have "find_from sub i xs = - 1 \<or> int i \<le> find_from sub i xs" for sub :: string and i xs
      by (induction xs arbitrary: i) (auto, force)
    from this [of "'' ''" "Suc 0" cs] show ?thesis by auto
  qed
  with Cons show ?thesis by (simp add: py_find_def)
qed

lemma header_item_space: "header_item remove header (CHR '' '' # rest) = Inr header"
  by (simp add: header_item_def py_find_space_first)

lemma header_loop_filter:
  "header_loop remove header (filter (\<lambda>kv. \<not> prefix '' '' kv) kvs) = header_loop remove header kvs"
proof (induction kvs arbitrary: header)
  case Nil
  then show ?case by simp
next
  case (Cons kv kvs)
  show ?case
  proof (cases "prefix '' '' kv")
    case True
    then obtain rest where "kv = CHR '' '' # rest"
      by (cases kv) auto
    then show ?thesis using Cons by (simp add: header_item_space)
  next
    case False
    then show ?thesis using Cons by simp
  qed
qed

text \<open>
  Claim C10. A piece that starts with a space is skipped: the loop body returns the
  header unchanged without splitting the piece, and the result of \<open>parse_isf_header\<close>
  is that of the loop over the pieces that do not start with a space.
\<close>

theorem leading_space_piece_skipped:
  "header_item remove header (CHR '' '' # rest) = Inr header
   \<and> parse_isf_header text
       = header_loop (header_namespace text) empty_header
           (filter (\<lambda>kv. \<not> prefix '' '' kv) (header_pieces text))"
  by (simp add: header_item_space parse_isf_header_loop header_loop_filter)

lemma py_int_error: "py_int s = Inl e \<Longrightarrow> e = ValueError"
  by (auto simp: py_int_def Let_def split: if_splits)

lemma float_exponent_error: "float_exponent s = Inl e \<Longrightarrow> e = ValueError"
  by (auto simp: float_exponent_def Let_def split: list.splits if_splits)

lemma float_decimal_error: "float_decimal s = Inl e \<Longrightarrow> e = ValueError"
  by (cases "float_exponent (if (case dropWhile is_digit s of [] \<Rightarrow> False | c # x \<Rightarrow> c = CHR ''.'')
        then dropWhile is_digit (tl (dropWhile is_digit s)) else dropWhile is_digit s)")
     (auto simp: float_decimal_def Let_def dest: float_exponent_error split: if_splits)

lemma float_body_error: "float_body s = Inl e \<Longrightarrow> e = ValueError"
  unfolding float_body_def Let_def
  by (auto simp: bindE_def dest: float_decimal_error split: if_splits sum.splits)

lemma py_float_error: "py_float s = Inl e \<Longrightarrow> e = ValueError"
  by (auto simp: py_float_def Let_def dest: float_body_error split: if_splits)

lemma convert_error: "convert c s = Inl e \<Longrightarrow> e = ValueError"
  by (cases c) (auto simp: convert_def bindE_def dest: py_int_error py_float_error split: sum.splits)

lemma header_item_error: "header_item remove h kv = Inl e \<Longrightarrow> e = ValueError"
  by (auto simp: header_item_def bindE_def dest: convert_error
      split: if_splits list.splits option.splits corrected.splits sum.splits)

text \<open>What a piece does to the header: nothing, or one assignment to a field it names.\<close>

lemma header_item_result:
  assumes "header_item remove h kv = Inr h'"
  shows "h' = h \<or> (\<exists>a k v. piece_key remove kv = Some a \<and> CORRECTING_HD a = Some (Field k)
            \<and> k \<in> set (map fst HEADER_DISPATCHER) \<and> h' = AList.update k v h)"
  using assms
  by (auto simp: header_item_def piece_key_def bindE_def dest!: map_of_SomeD
      split: if_splits list.splits option.splits corrected.splits sum.splits)
     force+

lemma header_item_accepted:
  "(\<exists>h'. header_item remove h kv = Inr h') \<longleftrightarrow> piece_accepted remove kv"
  by (auto simp: header_item_def piece_accepted_def bindE_def
      split: if_splits list.splits option.splits corrected.splits sum.splits)

lemma header_item_keys:
  assumes "header_item remove h kv = Inr h'" and "map fst h = map fst HEADER_DISPATCHER"
  shows "map fst h' = map fst HEADER_DISPATCHER"
  using header_item_result [OF assms(1)] assms(2) by (force simp: update_keys)

lemma header_item_other_field:
  assumes "header_item remove h kv = Inr h'"
    and "\<forall>a. piece_key remove kv = Some a \<longrightarrow> CORRECTING_HD a \<noteq> Some (Field k)"
  shows "map_of h' k = map_of h k"
  using header_item_result [OF assms(1)] assms(2) by (auto simp: update_conv')

lemma header_loop_keys:
  "header_loop remove h kvs = Inr h' \<Longrightarrow> map fst h = map fst HEADER_DISPATCHER
     \<Longrightarrow> map fst h' = map fst HEADER_DISPATCHER"
proof (induction kvs arbitrary: h)
  case Nil
  then show ?case by simp
next
  case (Cons kv kvs)
  from Cons.prems(1) obtain h1 where
    h1: "header_item remove h kv = Inr h1" "header_loop remove h1 kvs = Inr h'"
    by (auto simp: bindE_eq_Inr)
  from header_item_keys [OF h1(1) Cons.prems(2)] Cons.IH [OF h1(2)] show ?case by simp
qed

lemma header_loop_other_field:
  "header_loop remove h kvs = Inr h'
     \<Longrightarrow> \<forall>kv \<in> set kvs. \<forall>a. piece_key remove kv = Some a \<longrightarrow> CORRECTING_HD a \<noteq> Some (Field k)
     \<Longrightarrow> map_of h' k = map_of h k"
proof (induction kvs arbitrary: h)
  case Nil
  then show ?case by simp
next
  case (Cons kv kvs)
  from Cons.prems(1) obtain h1 where
    h1: "header_item remove h kv = Inr h1" "header_loop remove h1 kvs = Inr h'"
    by (auto simp: bindE_eq_Inr)
  have "map_of h1 k = map_of h k"
    using header_item_other_field [OF h1(1)] Cons.prems(2) by simp
  moreover have "map_of h' k = map_of h1 k"
    using Cons.IH [OF h1(2)] Cons.prems(2) by simp
  ultimately show ?case by simp
qed

lemma header_loop_returns:
  "\<forall>kv \<in> set kvs. piece_accepted remove kv \<Longrightarrow> \<exists>h'. header_loop remove h kvs = Inr h'"
proof (induction kvs arbitrary: h)
  case Nil
  then show ?case by simp
next
  case (Cons kv kvs)
  then obtain h1 where "header_item remove h kv = Inr h1"
    using header_item_accepted [of remove h kv] by auto
  with Cons show ?case by simp
qed

lemma header_loop_fails:
  "\<exists>kv \<in> set kvs. \<not> piece_accepted remove kv \<Longrightarrow> header_loop remove h kvs = Inl ValueError"
proof (induction kvs arbitrary: h)
  case Nil
  then show ?case by simp
next
  case (Cons kv kvs)
  show ?case
  proof (cases "header_item remove h kv")
    case (Inl e)
    then show ?thesis using header_item_error [OF Inl] by simp
  next
    case (Inr h1)
    then have "piece_accepted remove kv"
      using header_item_accepted [of remove h kv] by auto
    with Cons.prems have "\<exists>kv \<in> set kvs. \<not> piece_accepted remove kv" by auto
    from Cons.IH [OF this] Inr show ?thesis by simp
  qed
qed

lemma empty_header_keys: "map fst empty_header = map fst HEADER_DISPATCHER"
  by (simp add: empty_header_def comp_def)

lemma map_of_constant: "k \<in> set ks \<Longrightarrow> map_of (map (\<lambda>k. (k, v)) ks) k = Some v"
  by (induction ks) auto

lemma empty_header_None:
  "k \<in> set (map fst HEADER_DISPATCHER) \<Longrightarrow> map_of empty_header k = Some HNone"
  unfolding empty_header_def by (rule map_of_constant)

lemma CORRECTING_HD_empty: "CORRECTING_HD [] = None"
  by (simp add: CORRECTING_HD_def SCOPE1_HD_def SCOPE2_HD_def map_add_def)

lemma py_split1_two:
  "CHR '' '' \<in> set kv \<Longrightarrow> \<exists>key val. py_split1 (CHR '' '') kv = [key, val]"
  by (auto simp: py_split1_def dropWhile_eq_Nil_conv split: list.splits)

lemma py_split1_space_first: "py_split1 (CHR '' '') (CHR '' '' # rest) = [[], rest]"
  by (simp add: py_split1_def)

lemma py_remove_Nil: "py_remove [] old = []"
  by (simp add: py_remove_def)

text \<open>A piece with a space is accepted exactly when its value suits its field.\<close>

lemma piece_accepted_iff:
  assumes "CHR '' '' \<in> set kv"
  shows "piece_accepted remove kv \<longleftrightarrow> value_accepted remove kv"
proof (cases "prefix '' '' kv")
  case True
  then obtain rest where kv: "kv = CHR '' '' # rest"
    by (cases kv) auto
  show ?thesis
    by (simp add: kv piece_accepted_def header_item_space value_accepted_def
        py_split1_space_first py_remove_Nil CORRECTING_HD_empty)
next
  case False
  then have nz: "py_find kv '' '' \<noteq> 0"
    by (simp add: py_find_zero_iff)
  from py_split1_two [OF assms] obtain key val where kv: "py_split1 (CHR '' '') kv = [key, val]"
    by blast
  show ?thesis
  proof (cases "CORRECTING_HD (py_remove key remove)")
    case None
    then show ?thesis
      by (simp add: piece_accepted_def header_item_def value_accepted_def nz kv)
  next
    case (Some c)
    show ?thesis
    proof (cases c)
      case Type_object
      with Some show ?thesis
        by (simp add: piece_accepted_def header_item_def value_accepted_def nz kv)
    next
      case (Field k)
      show ?thesis
      proof (cases "map_of HEADER_DISPATCHER k")
        case None
        with Some Field show ?thesis
          by (simp add: piece_accepted_def header_item_def value_accepted_def nz kv)
      next
        case (Some conv)
        with \<open>CORRECTING_HD (py_remove key remove) = Some c\<close> Field show ?thesis
          by (cases conv; cases "py_int val"; cases "py_float val")
             (auto simp: piece_accepted_def header_item_def value_accepted_def nz kv convert_def
                dest: py_int_error py_float_error)
      qed
    qed
  qed
qed

text \<open>
  Claim C9. A header that \<open>parse_isf_header\<close> returns has exactly the keys of
  \<open>HEADER_DISPATCHER\<close>, and every field that no piece of the text names is bound to
  \<^verbatim>\<open>None\<close>. Missing fields never make the parse fail: it returns whenever the loop
  body accepts each piece on its own, whichever fields the text leaves out.
\<close>

theorem missing_fields_are_None:
  "(parse_isf_header text = Inr h \<longrightarrow>
      map fst h = map fst HEADER_DISPATCHER
      \<and> (\<forall>k \<in> set (map fst HEADER_DISPATCHER).
            (\<forall>kv \<in> set (header_pieces text). \<forall>a.
                piece_key (header_namespace text) kv = Some a \<longrightarrow> CORRECTING_HD a \<noteq> Some (Field k))
            \<longrightarrow> map_of h k = Some HNone))
   \<and> ((\<forall>kv \<in> set (header_pieces text). piece_accepted (header_namespace text) kv)
        \<longrightarrow> (\<exists>h'. parse_isf_header text = Inr h'))"
proof (intro conjI impI ballI)
  assume "parse_isf_header text = Inr h"
  then show "map fst h = map fst HEADER_DISPATCHER"
    unfolding parse_isf_header_loop by (rule header_loop_keys) (rule empty_header_keys)
next
  fix k
  assume p: "parse_isf_header text = Inr h"
    and k: "k \<in> set (map fst HEADER_DISPATCHER)"
    and missing: "\<forall>kv \<in> set (header_pieces text). \<forall>a.
      piece_key (header_namespace text) kv = Some a \<longrightarrow> CORRECTING_HD a \<noteq> Some (Field k)"
  from p have "map_of h k = map_of empty_header k"
    unfolding parse_isf_header_loop using missing by (rule header_loop_other_field)
  with k show "map_of h k = Some HNone"
    by (simp add: empty_header_None)
next
  assume "\<forall>kv \<in> set (header_pieces text). piece_accepted (header_namespace text) kv"
  then show "\<exists>h'. parse_isf_header text = Inr h'"
    unfolding parse_isf_header_loop by (rule header_loop_returns)
qed

text \<open>
  Claim C4, amended. For a header text whose pieces all contain a space,
  \<open>parse_isf_header\<close> returns a header when every value given for an \<^verbatim>\<open>int\<close> or
  \<^verbatim>\<open>float\<close> field converts, and raises \<open>ValueError\<close> otherwise.
\<close>

theorem parse_isf_header_returns_iff:
  assumes "\<forall>kv \<in> set (header_pieces text). CHR '' '' \<in> set kv"
  shows "if (\<forall>kv \<in> set (header_pieces text). value_accepted (header_namespace text) kv)
         then (\<exists>h. parse_isf_header text = Inr h)
         else parse_isf_header text = Inl ValueError"
proof (cases "\<forall>kv \<in> set (header_pieces text). value_accepted (header_namespace text) kv")
  case True
  with assms have "\<forall>kv \<in> set (header_pieces text). piece_accepted (header_namespace text) kv"
    by (simp add: piece_accepted_iff)
  from header_loop_returns [OF this] True show ?thesis
    by (simp add: parse_isf_header_loop)
next
  case False
  with assms have "\<exists>kv \<in> set (header_pieces text). \<not> piece_accepted (header_namespace text) kv"
    by (auto simp: piece_accepted_iff)
  from header_loop_fails [OF this] False show ?thesis
    by (simp add: parse_isf_header_loop)
qed

section \<open>Properties of \<open>split_isf_header\<close>\<close>

lemma find_from_bounds: "find_from sub i s = - 1 \<or> int i \<le> find_from sub i s"
  by (induction s arbitrary: i) (auto, force)

lemma py_find_ge: "- 1 \<le> py_find s sub"
  using find_from_bounds [of sub 0 s] by (auto simp: py_find_def)

lemma prefix_offset_ge: "prefix_offset data = Inr pos \<Longrightarrow> 6 \<le> pos"
  using py_find_ge [of data "'':CURV''"]
  by (auto simp: prefix_offset_def Let_def bindE_eq_Inr split: if_splits)

lemma digit_not_space: "is_digit c \<Longrightarrow> \<not> py_isspace c"
  by (auto simp: is_digit_def py_isspace_def)

lemma digit_not_sign: "is_digit c \<Longrightarrow> c \<noteq> CHR ''+'' \<and> c \<noteq> CHR ''-'' \<and> c \<noteq> CHR ''_''"
  by (auto simp: is_digit_def)

lemma py_int_Nil: "py_int [] = Inl ValueError"
  by (simp add: py_int_def)

lemma py_int_single:
  assumes "py_int [c] = Inr d"
  shows "is_digit c \<and> d = digit_val c"
proof (cases "is_digit c")
  case True
  then have "py_int [c] = Inr (digit_val c)"
    by (simp add: py_int_def Let_def digit_not_space digit_not_sign digits_value_def)
  with assms True show ?thesis by simp
next
  case nd: False
  have "py_int [c] = Inl ValueError"
  proof (cases "py_isspace c")
    case True
    then show ?thesis by (simp add: py_int_def Let_def)
  next
    case ns: False
    show ?thesis
    proof (cases "c = CHR ''+'' \<or> c = CHR ''-''")
      case True
      with ns show ?thesis by (auto simp: py_int_def Let_def)
    next
      case False
      with ns nd show ?thesis
        by (cases "c = CHR ''_''") (simp_all add: py_int_def Let_def)
    qed
  qed
  with assms show ?thesis by simp
qed

lemma digit_val_range: "is_digit c \<Longrightarrow> 0 \<le> digit_val c \<and> digit_val c \<le> 9"
  by (auto simp: is_digit_def digit_val_def)

lemma py_slice_one:
  "0 \<le> pos \<Longrightarrow> py_slice s pos (pos + 1) = (if pos < int (length s) then [s ! nat pos] else [])"
  by (auto simp: py_slice_def slice_index_def Let_def min_def nat_add_distrib
        take_Suc_conv_app_nth drop_take)

lemma py_slice_prefix: "0 \<le> j \<Longrightarrow> py_slice s 0 j = take (nat j) s"
  by (auto simp: py_slice_def slice_index_def Let_def min_def)

lemma py_slice_inside:
  "0 \<le> i \<Longrightarrow> 0 \<le> n \<Longrightarrow> py_slice s i (i + n) = take (nat n) (drop (nat i) s)"
  by (auto simp: py_slice_def slice_index_def Let_def min_def drop_take nat_add_distrib
        nat_diff_distrib)

lemma parse_isf_header_keys:
  "parse_isf_header text = Inr h \<Longrightarrow> map fst h = map fst HEADER_DISPATCHER"
  using header_loop_keys [of "header_namespace text" empty_header "header_pieces text" h]
  by (simp add: parse_isf_header_loop empty_header_keys)

lemma header_lookup:
  assumes "map fst h = map fst HEADER_DISPATCHER" and "k \<in> set (map fst HEADER_DISPATCHER)"
  shows "\<exists>v. map_of h k = Some v \<and> py_lookup h k = Inr v"
proof -
  from assms have "k \<in> fst ` set h"
    by (metis set_map)
  then obtain v where "map_of h k = Some v"
    by (cases "map_of h k") (auto simp: map_of_eq_None_iff)
  then show ?thesis by (simp add: py_lookup_def)
qed

lemma PT_FMT_key: "''PT_FMT'' \<in> set (map fst HEADER_DISPATCHER)"
  by (simp add: HEADER_DISPATCHER_def)

text \<open>
  Claim C5, amended. Where the marker gives the offset \<open>pos\<close>, the byte at
  \<open>pos\<close> is an ASCII digit \<open>d\<close> and \<open>pad_char = d + 1\<close>; \<open>data_len\<close> is
  \<^verbatim>\<open>int\<close> of the next \<open>d\<close> bytes (not \<open>pad_char\<close> bytes); the header text is
  the first \<open>pos + 1 + d\<close> bytes of the buffer, through the length prefix; and, for a
  header that is not \<^verbatim>\<open>ENV\<close>, the function returns the parsed header with the
  slice \<^verbatim>\<open>data[split : split + data_len]\<close> behind it, which for \<open>0 \<le> data_len\<close>
  is the next \<open>data_len\<close> bytes (fewer where the buffer ends before).
\<close>

theorem split_isf_header_layout:
  assumes off: "prefix_offset data = Inr pos"
    and dig: "py_int (decode_latin1 (py_slice data pos (pos + 1))) = Inr d"
    and len: "py_int (decode_latin1 (py_slice data (pos + 1) (pos + 1 + d))) = Inr data_len"
    and hdr: "parse_isf_header (decode_latin1 (py_slice data 0 (pos + 1 + d))) = Inr header"
    and env: "map_of header ''PT_FMT'' \<noteq> Some (HStr ''ENV'')"
  shows "(\<exists>c. py_slice data pos (pos + 1) = [c] \<and> is_digit c \<and> d = digit_val c)
     \<and> 0 \<le> d \<and> d \<le> 9
     \<and> length_prefix data pos = Inr (d + 1, data_len)
     \<and> py_slice data 0 (pos + 1 + d) = take (nat (pos + 1 + d)) data
     \<and> split_isf_header (Suc depth) data
         = Inr (header, py_slice data (pos + 1 + d) (pos + 1 + d + data_len))
     \<and> (0 \<le> data_len \<longrightarrow>
          py_slice data (pos + 1 + d) (pos + 1 + d + data_len)
            = take (nat data_len) (drop (nat (pos + 1 + d)) data))"
proof -
  from off have pos: "6 \<le> pos"
    by (rule prefix_offset_ge)
  have "py_slice data pos (pos + 1) \<noteq> []"
    using dig by (auto simp: decode_latin1_def py_int_Nil)
  with pos obtain c where c: "py_slice data pos (pos + 1) = [c]"
    by (auto simp: py_slice_one split: if_splits)
  with dig have digit: "is_digit c" "d = digit_val c"
    using py_int_single [of c d] by (simp_all add: decode_latin1_def)
  then have range: "0 \<le> d" "d \<le> 9"
    using digit_val_range [of c] by simp_all
  have arith: "pos + (d + 1) = pos + 1 + d"
    by simp
  have lp: "length_prefix data pos = Inr (d + 1, data_len)"
    unfolding length_prefix_def by (simp add: dig Let_def arith len)
  from parse_isf_header_keys [OF hdr] PT_FMT_key
  obtain v where v: "map_of header ''PT_FMT'' = Some v" "py_lookup header ''PT_FMT'' = Inr v"
    using header_lookup by blast
  with env have "v \<noteq> HStr ''ENV''"
    by auto
  then have split: "split_isf_header (Suc depth) data
      = Inr (header, py_slice data (pos + 1 + d) (pos + 1 + d + data_len))"
    by (simp add: off lp Let_def arith hdr v)
  have take: "py_slice data 0 (pos + 1 + d) = take (nat (pos + 1 + d)) data"
    using pos range by (intro py_slice_prefix) simp
  have inside: "0 \<le> data_len \<longrightarrow>
      py_slice data (pos + 1 + d) (pos + 1 + d + data_len)
        = take (nat data_len) (drop (nat (pos + 1 + d)) data)"
    using pos range by (auto intro: py_slice_inside)
  from c digit range lp take split inside show ?thesis
    by blast
qed

section \<open>Properties of the decoding\<close>


lemma py_lookup_Some: "map_of h k = Some v \<Longrightarrow> py_lookup h k = Inr v"
  by (simp add: py_lookup_def)











lemma wrap64_id: "- (2 ^ 63) \<le> x \<Longrightarrow> x < 2 ^ 63 \<Longrightarrow> wrap64 x = x"
  by (simp add: wrap64_def)

lemma sub_int_in_range:
  assumes "- (2 ^ 63) \<le> p" "p < 2 ^ 63" "int k - p \<le> 2 ^ 63"
  shows "sub_int (map int [0 ..< k]) (HInt p) = Inr (map (\<lambda>i. int i - p) [0 ..< k])"
proof -
  have "wrap64 (int i - p) = int i - p" if "i < k" for i
    using that assms by (intro wrap64_id) auto
  then have "map (\<lambda>i. wrap64 (i - p)) (map int [0 ..< k]) = map (\<lambda>i. int i - p) [0 ..< k]"
    by simp
  with assms show ?thesis by (simp add: sub_int_def)
qed

lemma with_float_HFloat: "with_float op a (HFloat y) = Inr (map (\<lambda>x. op x y) a)"
  by (simp add: with_float_def)

text \<open>
  Claim C1. When the split returns a header with the integer fields \<open>NR_PT\<close>,
  \<open>PT_OFF\<close> and the float fields \<open>XINCR\<close>, \<open>XZERO\<close>, \<open>YOFF\<close>,
  \<open>YMULT\<close>, \<open>YZERO\<close>, and the payload decodes to \<open>NR_PT\<close> raw samples, the
  parse returns exactly \<open>NR_PT\<close> rows, in sample order, with
  \<open>x[i] = (i - PT_OFF) * XINCR + XZERO\<close> and
  \<open>y[i] = (raw[i] - YOFF) * YMULT + YZERO\<close> in \<^verbatim>\<open>float64\<close> arithmetic
  (\<open>i - PT_OFF\<close> is computed in \<^verbatim>\<open>int64\<close>, where it must fit).
\<close>

theorem sample_array_rows:
  assumes split: "split_isf_header depth data = Inr (header, payload)"
    and x_fields: "map_of header ''NR_PT'' = Some (HInt n)"
      "map_of header ''PT_OFF'' = Some (HInt pt_off)"
      "map_of header ''XINCR'' = Some (HFloat xincr)"
      "map_of header ''XZERO'' = Some (HFloat xzero)"
    and y_fields: "map_of header ''YOFF'' = Some (HFloat yoff)"
      "map_of header ''YMULT'' = Some (HFloat ymult)"
      "map_of header ''YZERO'' = Some (HFloat yzero)"
    and format: "map_of header ''BYT_OR'' = Some byt_or"
      "map_of header ''BN_FMT'' = Some bn_fmt"
      "map_of header ''BYT_NR'' = Some byt_nr"
      "np_dtype (byt_or = HStr ''MSB'') (bn_fmt = HStr ''RI'') byt_nr = Inr dt"
    and raw: "np_fromstring payload dt = Inr raw"
    and count: "int (length raw) = n"
    and int64: "- (2 ^ 63) \<le> pt_off" "pt_off < 2 ^ 63" "n - pt_off \<le> 2 ^ 63"
  shows "\<exists>rows. parse_isf_data depth data with_header
                  = Inr (rows, if with_header then Some header else None)
     \<and> length rows = nat n
     \<and> (\<forall>i < nat n. rows ! i =
            (f64_add (f64_mul (f64_of_int (int i - pt_off)) xincr) xzero,
             f64_add (f64_mul (f64_sub (f64_of_int (raw ! i)) yoff) ymult) yzero))"
proof -
  let ?x = "\<lambda>i. f64_add (f64_mul (f64_of_int (int i - pt_off)) xincr) xzero"
  let ?y = "\<lambda>r. f64_add (f64_mul (f64_sub (f64_of_int r) yoff) ymult) yzero"
  let ?rows = "zip (map ?x [0 ..< nat n]) (map ?y raw)"
  from count have len: "length raw = nat n"
    by auto
  from count int64 have "int (nat n) - pt_off \<le> 2 ^ 63"
    by auto
  from sub_int_in_range [OF int64(1) int64(2) this]
  have idx: "sub_int (map int [0 ..< nat n]) (HInt pt_off)
      = Inr (map (\<lambda>i. int i - pt_off) [0 ..< nat n])" .
  have "sample_array header payload = Inr ?rows"
    unfolding sample_array_def
    by (simp add: x_fields y_fields format raw py_lookup_Some np_arange_def idx
        with_float_HFloat np_columns_def len comp_def)
  then have "parse_isf_data depth data with_header
      = Inr (?rows, if with_header then Some header else None)"
    by (simp add: parse_isf_data_def split)
  moreover have "length ?rows = nat n"
    by (simp add: len)
  moreover have "\<forall>i < nat n. ?rows ! i = (?x i, ?y (raw ! i))"
    by (simp add: len)
  ultimately show ?thesis
    by blast
qed

section \<open>The two header dialects\<close>

subsection \<open>Substrings\<close>

lemma find_from_sublist: "find_from sub i s \<noteq> - 1 \<longleftrightarrow> sublist sub s"
proof (induction s arbitrary: i)
  case Nil
  then show ?case by simp
next
  case (Cons c cs)
  then show ?case by (simp add: sublist_Cons_right)
qed

lemma py_in_sublist: "py_in sub s \<longleftrightarrow> sublist sub s"
  by (simp add: py_in_def py_find_def find_from_sublist)

lemma sublist_across:
  assumes "c \<notin> set p" "p \<noteq> []"
  shows "sublist p (a @ c # b) \<longleftrightarrow> sublist p a \<or> sublist p b"
proof -
  have "\<not> prefix p (c # b)"
    using assms by (cases p) auto
  then have right: "sublist p (c # b) \<longleftrightarrow> sublist p b"
    by (simp add: sublist_Cons_right)
  have "sublist p a" if "p = p1 @ p2" "suffix p1 a" "prefix p2 (c # b)" for p1 p2
  proof -
    have "p2 = []"
      using that(1,3) assms(1) by (cases p2) auto
    with that show ?thesis
      by (auto simp: suffix_def)
  qed
  then show ?thesis
    using right by (auto simp: sublist_append)
qed

lemma sublist_join:
  assumes "CHR '';'' \<notin> set p" "p \<noteq> []"
  shows "sublist p (join_pieces ps) \<longleftrightarrow> (\<exists>q \<in> set ps. sublist p q)"
proof (induction ps rule: join_pieces.induct)
  case 1
  from assms show ?case by simp
next
  case (2 q)
  show ?case by simp
next
  case (3 q r ps)
  then show ?case by (simp add: sublist_across [OF assms])
qed

subsection \<open>Splitting a joined text\<close>

lemma py_split_no_sep: "sep \<notin> set p \<Longrightarrow> py_split sep p = [p]"
  by (induction p) auto

lemma py_split_append: "sep \<notin> set p \<Longrightarrow> py_split sep (p @ sep # r) = p # py_split sep r"
  by (induction p) auto

lemma py_split_join:
  "ps \<noteq> [] \<Longrightarrow> \<forall>p \<in> set ps. CHR '';'' \<notin> set p \<Longrightarrow> py_split (CHR '';'') (join_pieces ps) = ps"
  by (induction ps rule: join_pieces.induct) (simp_all add: py_split_no_sep py_split_append)

lemma hd_join: "ps \<noteq> [] \<Longrightarrow> hd ps \<noteq> [] \<Longrightarrow> hd (join_pieces ps) = hd (hd ps)"
  by (induction ps rule: join_pieces.induct) simp_all

lemma last_join:
  "ps \<noteq> [] \<Longrightarrow> last ps \<noteq> []
     \<Longrightarrow> join_pieces ps \<noteq> [] \<and> last (join_pieces ps) = last (last ps)"
  by (induction ps rule: join_pieces.induct) simp_all

lemma join_Nil_iff: "ps \<noteq> [] \<Longrightarrow> hd ps \<noteq> [] \<Longrightarrow> join_pieces ps \<noteq> []"
  by (induction ps rule: join_pieces.induct) simp_all

lemma py_strip_id:
  assumes "s \<noteq> []" "hd s \<notin> set chars" "last s \<notin> set chars"
  shows "py_strip chars s = s"
proof -
  from assms have "dropWhile (\<lambda>c. c \<in> set chars) s = s"
    by (cases s) auto
  moreover from assms have "dropWhile (\<lambda>c. c \<in> set chars) (rev s) = rev s"
    by (cases "rev s") (auto simp: hd_rev)
  ultimately show ?thesis
    by (simp add: py_strip_def)
qed

lemma py_split1_key:
  assumes "CHR '' '' \<notin> set a"
  shows "py_split1 (CHR '' '') (a @ CHR '' '' # v) = [a, v]"
proof -
  from assms have "dropWhile (\<lambda>c. c \<noteq> CHR '' '') (a @ CHR '' '' # v) = CHR '' '' # v"
    by (induction a) auto
  moreover from assms have "takeWhile (\<lambda>c. c \<noteq> CHR '' '') (a @ CHR '' '' # v) = a"
    by (induction a) auto
  ultimately show ?thesis
    by (simp add: py_split1_def)
qed

subsection \<open>The keys of the schema in both spellings\<close>

lemma key_table:
  "list_all (\<lambda>k.
      k \<noteq> [] \<and> short_key k \<noteq> []
      \<and> CHR '' '' \<notin> set k \<and> CHR '' '' \<notin> set (short_key k)
      \<and> CHR '';'' \<notin> set k \<and> CHR '';'' \<notin> set (short_key k)
      \<and> py_remove ('':WFMPRE:'' @ k) '':WFMPRE:'' = k
      \<and> py_remove k '':WFMPRE:'' = k
      \<and> py_remove k '':WFMP:'' = k
      \<and> py_remove ('':WFMP:'' @ short_key k) '':WFMP:'' = short_key k
      \<and> py_remove (short_key k) '':WFMP:'' = short_key k
      \<and> CORRECTING_HD k = Some (Field k)
      \<and> CORRECTING_HD (short_key k) = Some (Field k)
      \<and> \<not> sublist '':WFMPRE:'' k
      \<and> \<not> sublist '':WFMPRE:'' (short_key k)
      \<and> \<not> sublist '':WFMPRE:'' ('':WFMP:'' @ short_key k))
    (map fst HEADER_DISPATCHER)"
  by code_simp

lemmas key_facts = key_table [unfolded list_all_iff, rule_format]

subsection \<open>One piece in both spellings\<close>

lemma header_item_key:
  assumes "CHR '' '' \<notin> set a" "a \<noteq> []"
  shows "header_item ns h (a @ CHR '' '' # v) =
     (case CORRECTING_HD (py_remove a ns) of
        Some (Field k) \<Rightarrow>
          (case map_of HEADER_DISPATCHER k of
             Some c \<Rightarrow> bindE (convert c v) (\<lambda>x. Inr (AList.update k x h))
           | None \<Rightarrow> Inr h)
      | _ \<Rightarrow> Inr h)"
proof -
  from assms have "\<not> prefix '' '' (a @ CHR '' '' # v)"
    by (cases a) auto
  then have "py_find (a @ CHR '' '' # v) '' '' \<noteq> 0"
    by (simp add: py_find_zero_iff)
  then show ?thesis
    by (simp add: header_item_def py_split1_key [OF assms(1)])
qed

lemma long_item:
  assumes "writable (b, k, v)" and "b \<longrightarrow> ns = '':WFMPRE:''"
    and "ns = '':WFMPRE:'' \<or> ns = '':WFMP:''"
  shows "header_item ns h (field_piece '':WFMPRE:'' (\<lambda>k. k) (b, k, v)) =
     (case map_of HEADER_DISPATCHER k of
        Some c \<Rightarrow> bindE (convert c v) (\<lambda>x. Inr (AList.update k x h))
      | None \<Rightarrow> Inr h)"
proof -
  from assms(1) have k: "k \<in> set (map fst HEADER_DISPATCHER)"
    by (simp add: writable_def)
  let ?a = "(if b then '':WFMPRE:'' else []) @ k"
  have a: "CHR '' '' \<notin> set ?a" "?a \<noteq> []"
    using key_facts [OF k] by auto
  have "py_remove ?a ns = k"
    using key_facts [OF k] assms(2,3) by auto
  then show ?thesis
    using header_item_key [OF a, of ns h v] key_facts [OF k]
    by (simp add: field_piece_def)
qed

lemma short_item:
  assumes "writable (b, k, v)"
  shows "header_item '':WFMP:'' h (field_piece '':WFMP:'' short_key (b, k, v)) =
     (case map_of HEADER_DISPATCHER k of
        Some c \<Rightarrow> bindE (convert c v) (\<lambda>x. Inr (AList.update k x h))
      | None \<Rightarrow> Inr h)"
proof -
  from assms(1) have k: "k \<in> set (map fst HEADER_DISPATCHER)"
    by (simp add: writable_def)
  let ?a = "(if b then '':WFMP:'' else []) @ short_key k"
  have a: "CHR '' '' \<notin> set ?a" "?a \<noteq> []"
    using key_facts [OF k] by auto
  have "py_remove ?a '':WFMP:'' = short_key k"
    using key_facts [OF k] by auto
  then show ?thesis
    using header_item_key [OF a, of "'':WFMP:''" h v] key_facts [OF k]
    by (simp add: field_piece_def)
qed

lemma loops_alike:
  assumes "\<forall>f \<in> set fs. writable f" and "\<forall>f \<in> set fs. fst f \<longrightarrow> ns = '':WFMPRE:''"
    and "ns = '':WFMPRE:'' \<or> ns = '':WFMP:''"
  shows "header_loop ns h (map (field_piece '':WFMPRE:'' (\<lambda>k. k)) fs)
       = header_loop '':WFMP:'' h (map (field_piece '':WFMP:'' short_key) fs)"
  using assms
proof (induction fs arbitrary: h)
  case Nil
  then show ?case by simp
next
  case (Cons f fs)
  obtain b k v where f: "f = (b, k, v)"
    by (cases f) auto
  from Cons.prems f have w: "writable (b, k, v)" and p: "b \<longrightarrow> ns = '':WFMPRE:''"
    by auto
  have "header_item ns h (field_piece '':WFMPRE:'' (\<lambda>k. k) f)
      = header_item '':WFMP:'' h (field_piece '':WFMP:'' short_key f)"
    unfolding f long_item [OF w p Cons.prems(3)] short_item [OF w] ..
  moreover have "header_loop ns h' (map (field_piece '':WFMPRE:'' (\<lambda>k. k)) fs)
      = header_loop '':WFMP:'' h' (map (field_piece '':WFMP:'' short_key) fs)" for h'
    using Cons.IH [of h'] Cons.prems by simp
  ultimately show ?case by simp
qed

subsection \<open>The two texts\<close>

lemma piece_no_semicolon:
  assumes "writable f" and "ns = '':WFMPRE:'' \<and> spelling = (\<lambda>k. k) \<or> ns = '':WFMP:'' \<and> spelling = short_key"
  shows "CHR '';'' \<notin> set (field_piece ns spelling f)" "field_piece ns spelling f \<noteq> []"
proof -
  obtain b k v where f: "f = (b, k, v)"
    by (cases f) auto
  with assms(1) have k: "k \<in> set (map fst HEADER_DISPATCHER)" and v: "CHR '';'' \<notin> set v"
    by (simp_all add: writable_def)
  show "CHR '';'' \<notin> set (field_piece ns spelling f)"
    using key_facts [OF k] v assms(2) by (auto simp: f field_piece_def)
  show "field_piece ns spelling f \<noteq> []"
    by (simp add: f field_piece_def)
qed

lemma pieces_of_text:
  assumes "\<forall>f \<in> set fs. writable f" and "fs \<noteq> []"
    and "ns = '':WFMPRE:'' \<and> spelling = (\<lambda>k. k) \<or> ns = '':WFMP:'' \<and> spelling = short_key"
  shows "header_pieces (join_pieces (map (field_piece ns spelling) fs))
       = map (field_piece ns spelling) fs"
proof -
  let ?ps = "map (field_piece ns spelling) fs"
  have no: "\<forall>p \<in> set ?ps. CHR '';'' \<notin> set p \<and> p \<noteq> []"
    using assms(1) piece_no_semicolon [OF _ assms(3)] by auto
  from assms(2) have ne: "?ps \<noteq> []" by simp
  then have ends: "hd ?ps \<in> set ?ps" "last ?ps \<in> set ?ps"
    by (rule hd_in_set, rule last_in_set)
  with no have h: "hd ?ps \<noteq> []" "last ?ps \<noteq> []"
    by blast+
  from no ends h have "hd (hd ?ps) \<noteq> CHR '';''" "last (last ?ps) \<noteq> CHR '';''"
    by (metis hd_in_set, metis last_in_set)
  with hd_join [OF ne h(1)] last_join [OF ne h(2)]
  have "py_strip '';'' (join_pieces ?ps) = join_pieces ?ps"
    by (intro py_strip_id) simp_all
  then show ?thesis
    using py_split_join [OF ne] no by (simp add: header_pieces_def)
qed

lemma piece_sublist:
  assumes "writable (b, k, v)"
  shows "sublist '':WFMPRE:'' (field_piece '':WFMPRE:'' (\<lambda>k. k) (b, k, v)) \<longleftrightarrow> b"
    and "\<not> sublist '':WFMPRE:'' (field_piece '':WFMP:'' short_key (b, k, v))"
proof -
  from assms have k: "k \<in> set (map fst HEADER_DISPATCHER)"
    and v: "\<not> sublist '':WFMPRE:'' v"
    by (simp_all add: writable_def py_in_sublist)
  have sp: "CHR '' '' \<notin> set '':WFMPRE:''" "'':WFMPRE:'' \<noteq> []"
    by simp_all
  have form: "field_piece ns spelling (b, k, v)
      = ((if b then ns else []) @ spelling k) @ CHR '' '' # v" for ns spelling
    by (simp add: field_piece_def)
  have inside: "sublist '':WFMPRE:'' ('':WFMPRE:'' @ k)"
    by (rule sublist_append_rightI)
  show "sublist '':WFMPRE:'' (field_piece '':WFMPRE:'' (\<lambda>k. k) (b, k, v)) \<longleftrightarrow> b"
    unfolding form sublist_across [OF sp]
    using key_facts [OF k] v inside by (cases b) simp_all
  show "\<not> sublist '':WFMPRE:'' (field_piece '':WFMP:'' short_key (b, k, v))"
    unfolding form sublist_across [OF sp]
    using key_facts [OF k] v by (cases b) simp_all
qed

lemma namespaces:
  assumes "\<forall>f \<in> set fs. writable f"
  shows "header_namespace (long_text fs)
       = (if \<exists>f \<in> set fs. fst f then '':WFMPRE:'' else '':WFMP:'')"
    and "header_namespace (short_text fs) = '':WFMP:''"
proof -
  have sc: "CHR '';'' \<notin> set '':WFMPRE:''" "'':WFMPRE:'' \<noteq> []"
    by simp_all
  have "sublist '':WFMPRE:'' (field_piece '':WFMPRE:'' (\<lambda>k. k) f) \<longleftrightarrow> fst f"
    and "\<not> sublist '':WFMPRE:'' (field_piece '':WFMP:'' short_key f)" if "f \<in> set fs" for f
    using that assms piece_sublist [of "fst f" "fst (snd f)" "snd (snd f)"] by auto
  then show "header_namespace (long_text fs)
       = (if \<exists>f \<in> set fs. fst f then '':WFMPRE:'' else '':WFMP:'')"
    and "header_namespace (short_text fs) = '':WFMP:''"
    by (auto simp: header_namespace_def long_text_def short_text_def py_in_sublist
        sublist_join [OF sc])
qed

text \<open>
  Claim C8, amended. For every list of canonical fields whose values hold no semicolon
  and not the text \<^verbatim>\<open>:WFMPRE:\<close>, the header text written with the prefix
  \<^verbatim>\<open>:WFMPRE:\<close> and the long keys and the one written with \<^verbatim>\<open>:WFMP:\<close> and the
  short keys give the same result under \<open>parse_isf_header\<close>: the same header, or the
  same \<open>ValueError\<close> where a value does not convert.
\<close>

theorem both_dialects_parse_alike:
  assumes "\<forall>f \<in> set fs. writable f"
  shows "parse_isf_header (long_text fs) = parse_isf_header (short_text fs)"
proof (cases "fs = []")
  case True
  then show ?thesis by (simp add: long_text_def short_text_def)
next
  case False
  let ?ns = "if \<exists>f \<in> set fs. fst f then '':WFMPRE:'' else '':WFMP:''"
  have "parse_isf_header (long_text fs)
      = header_loop ?ns empty_header (header_pieces (long_text fs))"
    by (simp only: parse_isf_header_loop namespaces(1) [OF assms])
  also have "header_pieces (long_text fs) = map (field_piece '':WFMPRE:'' (\<lambda>k. k)) fs"
    unfolding long_text_def by (rule pieces_of_text [OF assms False]) simp
  also have "header_loop ?ns empty_header (map (field_piece '':WFMPRE:'' (\<lambda>k. k)) fs)
      = header_loop '':WFMP:'' empty_header (map (field_piece '':WFMP:'' short_key) fs)"
    by (rule loops_alike [OF assms]) auto
  also have "map (field_piece '':WFMP:'' short_key) fs = header_pieces (short_text fs)"
    unfolding short_text_def by (rule pieces_of_text [OF assms False, symmetric]) simp
  also have "header_loop '':WFMP:'' empty_header (header_pieces (short_text fs))
      = parse_isf_header (short_text fs)"
    by (simp only: parse_isf_header_loop namespaces(2) [OF assms])
  finally show ?thesis .
qed

section \<open>Further properties\<close>

text \<open>
  After an \<^verbatim>\<open>ENV\<close> header the function returns what the nested call on
  \<^verbatim>\<open>data[split + data_len:]\<close> returns; an \<open>IndexError\<close> or
  \<open>InvalidFileError\<close> of the nested call becomes \<open>InvalidFileError\<close>, any other
  exception passes unchanged.
\<close>

theorem env_header_recurses:
  assumes "prefix_offset data = Inr pos"
    and "length_prefix data pos = Inr (pad_char, data_len)"
    and "parse_isf_header (decode_latin1 (py_slice data 0 (pos + pad_char))) = Inr header"
    and "map_of header ''PT_FMT'' = Some (HStr ''ENV'')"
  shows "split_isf_header (Suc depth) data =
     (case split_isf_header depth (py_slice_from data (pos + pad_char + data_len)) of
        Inr r \<Rightarrow> Inr r
      | Inl e \<Rightarrow> Inl (if e = IndexError \<or> e = InvalidFileError then InvalidFileError else e))"
proof -
  have "py_lookup header ''PT_FMT'' = Inr (HStr ''ENV'')"
    using assms(4) by (rule py_lookup_Some)
  then show ?thesis
    by (simp add: assms(1-3) Let_def split: sum.splits error.splits)
qed

lemma no_space_not_accepted:
  assumes "CHR '' '' \<notin> set kv"
  shows "\<not> piece_accepted remove kv"
proof -
  from assms have "\<not> prefix '' '' kv"
    by (cases kv) auto
  then have "py_find kv '' '' \<noteq> 0"
    by (simp add: py_find_zero_iff)
  moreover from assms have none: "dropWhile (\<lambda>c. c \<noteq> CHR '' '') kv = []"
    by (induction kv) auto
  have "py_split1 (CHR '' '') kv = [kv]"
    unfolding py_split1_def none by simp
  ultimately show ?thesis
    by (simp add: piece_accepted_def header_item_def)
qed

text \<open>
  A piece of the header text without a space makes \<open>parse_isf_header\<close> raise
  \<open>ValueError\<close>: \<^verbatim>\<open>find\<close> returns \<open>-1\<close>, which is true, and the split gives
  one piece where the assignment wants two.
\<close>

theorem piece_without_space_raises:
  assumes "kv \<in> set (header_pieces text)" and "CHR '' '' \<notin> set kv"
  shows "parse_isf_header text = Inl ValueError"
proof -
  from assms have "\<exists>kv \<in> set (header_pieces text). \<not> piece_accepted (header_namespace text) kv"
    using no_space_not_accepted by blast
  then show ?thesis
    unfolding parse_isf_header_loop by (rule header_loop_fails)
qed

section \<open>The scenario of the specification\<close>

text \<open>
  Claim C2. On the scenario's buffer the top-level parse returns the rows
  \<open>(0.0, 2.0)\<close>, \<open>(1.0, -2.0)\<close>, \<open>(2.0, 4.0)\<close>, that is
  \<open>X = [0.0, 1.0, 2.0]\<close> and \<open>Y = [2.0, -2.0, 4.0]\<close>, whatever recursion depth
  (at least one call) the interpreter allows. The split returns the scenario's header
  and the three bytes; the header's \<open>BYT_OR\<close>, \<open>BN_FMT\<close> and \<open>BYT_NR\<close> give
  the little-endian signed one-byte type, and the bytes decode to \<open>1, -1, 2\<close>.
\<close>

theorem scenario_decodes:
  "parse_isf_data (Suc depth) scenario_buffer False
     = Inr ([(Fin 0, Fin 2), (Fin 1, Fin (- 2)), (Fin 2, Fin 4)], None)
   \<and> split_isf_header (Suc depth) scenario_buffer
     = Inr (scenario_header, [CHR 0x01, CHR 0xFF, CHR 0x02])
   \<and> np_dtype (map_of scenario_header ''BYT_OR'' = Some (HStr ''MSB''))
         (map_of scenario_header ''BN_FMT'' = Some (HStr ''RI'')) (HInt 1)
     = Inr \<lparr>big_endian = False, signed = True, itemsize = 1\<rparr>
   \<and> np_fromstring [CHR 0x01, CHR 0xFF, CHR 0x02]
         \<lparr>big_endian = False, signed = True, itemsize = 1\<rparr> = Inr [1, - 1, 2]"
  unfolding scenario_buffer_def scenario_text_def scenario_header_def by code_simp

theorem scenario_decodes_witness:
  "parse_isf_data 1 scenario_buffer False
     = Inr ([(Fin 0, Fin 2), (Fin 1, Fin (- 2)), (Fin 2, Fin 4)], None)"
  using scenario_decodes [of 0] by simp

section \<open>A buffer without the marker\<close>

text \<open>
  Claim C3 says that a buffer without the marker \<^verbatim>\<open>:CURV\<close> makes
  \<open>split_isf_header\<close> raise \<open>InvalidFileError\<close> and nothing else. The function
  reads \<^verbatim>\<open>data[find + 5]\<close> before it tests \<^verbatim>\<open>find != -1\<close>: the buffer
  \<^verbatim>\<open>b'abcdE x13xyz'\<close> holds no marker and has \<^verbatim>\<open>E\<close> at index 4, and the
  function returns a header and the data \<^verbatim>\<open>b'xyz'\<close>; on the empty buffer it raises
  \<open>IndexError\<close>.
\<close>

theorem no_marker_not_refused:
  "py_find ''abcdE x13xyz'' '':CURV'' = - 1
   \<and> split_isf_header (Suc depth) ''abcdE x13xyz'' = Inr (empty_header, ''xyz'')
   \<and> py_find ([] :: bytes) '':CURV'' = - 1
   \<and> split_isf_header (Suc depth) [] = Inl IndexError"
  unfolding empty_header_def by code_simp

section \<open>The nested header of an envelope waveform\<close>

text \<open>
  Claim C7 says that, after an \<^verbatim>\<open>ENV\<close> header, a remainder without the marker
  ends in \<open>InvalidFileError\<close>. The remainder \<^verbatim>\<open>b'abcdE'\<close> of the buffer below
  holds no marker, the nested call takes the \<^verbatim>\<open>E\<close> at index 4 for the long
  spelling and fails in \<^verbatim>\<open>int('')\<close>, and the \<open>ValueError\<close> passes the
  \<^verbatim>\<open>except\<close> clause unchanged.
\<close>

theorem env_remainder_without_marker:
  "py_find ''abcdE'' '':CURV'' = - 1
   \<and> py_slice_from '':WFMP:PT_F ENV;:CURV #10abcdE'' 24 = ''abcdE''
   \<and> split_isf_header (Suc (Suc depth)) '':WFMP:PT_F ENV;:CURV #10abcdE'' = Inl ValueError"
  by code_simp

section \<open>Instances of the properties of \<open>parse_isf_header\<close>\<close>

theorem leading_space_piece_skipped_witness:
  "header_item '':WFMP:'' empty_header '' BYT_N 3'' = Inr empty_header
   \<and> parse_isf_header '':WFMP:NR_P 5; BYT_N 3''
       = Inr (AList.update ''NR_PT'' (HInt 5) empty_header)"
proof -
  have "header_loop (header_namespace '':WFMP:NR_P 5; BYT_N 3'') empty_header
          (filter (\<lambda>kv. \<not> prefix '' '' kv) (header_pieces '':WFMP:NR_P 5; BYT_N 3''))
        = Inr (AList.update ''NR_PT'' (HInt 5) empty_header)"
    by code_simp
  with leading_space_piece_skipped [of "'':WFMP:''" empty_header "''BYT_N 3''" "'':WFMP:NR_P 5; BYT_N 3''"]
  show ?thesis by simp
qed

theorem missing_fields_are_None_witness:
  "parse_isf_header ''FOO bar;NR_PT 5'' = Inr (AList.update ''NR_PT'' (HInt 5) empty_header)
   \<and> map fst (AList.update ''NR_PT'' (HInt 5) empty_header) = map fst HEADER_DISPATCHER
   \<and> map_of (AList.update ''NR_PT'' (HInt 5) empty_header) ''XINCR'' = Some HNone"
proof -
  let ?t = "''FOO bar;NR_PT 5''"
  let ?h = "AList.update ''NR_PT'' (HInt 5) empty_header"
  have p: "parse_isf_header ?t = Inr ?h"
    by code_simp
  have pieces: "header_pieces ?t = [''FOO bar'', ''NR_PT 5'']"
    by code_simp
  have ns: "header_namespace ?t = '':WFMP:''"
    by code_simp
  have k1: "piece_key '':WFMP:'' ''FOO bar'' = Some ''FOO''"
    and k2: "piece_key '':WFMP:'' ''NR_PT 5'' = Some ''NR_PT''"
    by code_simp+
  have c1: "CORRECTING_HD ''FOO'' = None"
    and c2: "CORRECTING_HD ''NR_PT'' = Some (Field ''NR_PT'')"
    by code_simp+
  have x: "''XINCR'' \<in> set (map fst HEADER_DISPATCHER)"
    by code_simp
  have missing: "\<forall>kv \<in> set (header_pieces ?t). \<forall>a.
      piece_key (header_namespace ?t) kv = Some a \<longrightarrow> CORRECTING_HD a \<noteq> Some (Field ''XINCR'')"
    by (simp add: pieces ns k1 k2 c1 c2)
  from missing_fields_are_None [of ?t ?h] p x missing show ?thesis
    by blast
qed

theorem parse_isf_header_returns_iff_witness:
  "header_pieces ''NR_PT 5;XINCR 1.0'' = [''NR_PT 5'', ''XINCR 1.0'']
   \<and> (\<exists>h. parse_isf_header ''NR_PT 5;XINCR 1.0'' = Inr h)"
proof -
  let ?t = "''NR_PT 5;XINCR 1.0''"
  have pieces: "header_pieces ?t = [''NR_PT 5'', ''XINCR 1.0'']"
    by code_simp
  have ns: "header_namespace ?t = '':WFMP:''"
    by code_simp
  have v: "value_accepted '':WFMP:'' ''NR_PT 5''" "value_accepted '':WFMP:'' ''XINCR 1.0''"
    by code_simp+
  have sp: "\<forall>kv \<in> set (header_pieces ?t). CHR '' '' \<in> set kv"
    by (simp add: pieces)
  have "\<forall>kv \<in> set (header_pieces ?t). value_accepted (header_namespace ?t) kv"
    by (simp add: pieces ns v)
  with parse_isf_header_returns_iff [OF sp] pieces show ?thesis
    by simp
qed

theorem non_numeric_value_raises:
  "parse_isf_header ''NR_PT abc'' = Inl ValueError
   \<and> parse_isf_header '':WFMPRE:XINCR fast'' = Inl ValueError"
  by code_simp

section \<open>Instances of the properties of \<open>split_isf_header\<close>\<close>

theorem length_prefix_reads_d_bytes:
  "prefix_offset '':CURVE #13123'' = Inr 8
   \<and> length_prefix '':CURVE #13123'' 8 = Inr (2, 3)
   \<and> claimed_length_prefix '':CURVE #13123'' 8 = Inr (2, 31)
   \<and> split_isf_header 1 '':CURVE #13123''
       = Inr (AList.update '':CURVE'' (HStr ''#13'') empty_header, ''123'')"
  by code_simp

theorem split_isf_header_layout_witness:
  "length_prefix '':CURVE #13123'' 8 = Inr (2, 3)
   \<and> split_isf_header 1 '':CURVE #13123''
       = Inr (AList.update '':CURVE'' (HStr ''#13'') empty_header, ''123'')
   \<and> take 10 '':CURVE #13123'' = '':CURVE #13''"
proof -
  let ?b = "'':CURVE #13123''"
  let ?h = "AList.update '':CURVE'' (HStr ''#13'') empty_header"
  have off: "prefix_offset ?b = Inr 8"
    by code_simp
  have dig: "py_int (decode_latin1 (py_slice ?b 8 (8 + 1))) = Inr 1"
    by code_simp
  have len: "py_int (decode_latin1 (py_slice ?b (8 + 1) (8 + 1 + 1))) = Inr 3"
    by code_simp
  have hdr: "parse_isf_header (decode_latin1 (py_slice ?b 0 (8 + 1 + 1))) = Inr ?h"
    by code_simp
  have env: "map_of ?h ''PT_FMT'' \<noteq> Some (HStr ''ENV'')"
    by code_simp
  have payload: "py_slice ?b (8 + 1 + 1) (8 + 1 + 1 + 3) = ''123''"
    by code_simp
  have pre: "take (nat (8 + 1 + 1)) ?b = '':CURVE #13''"
    by code_simp
  from split_isf_header_layout [OF off dig len hdr env, of 0] payload pre
  show ?thesis by simp
qed

section \<open>Instances of the properties of the decoding\<close>



text \<open>
  The scenario with its last sample byte missing: three x values meet two y values, and
  stacking the columns raises \<open>ValueError\<close>.
\<close>

lemma truncated_payload_raises:
  "split_isf_header 1 (scenario_text @ [CHR 0x01, CHR 0xFF])
      = Inr (scenario_header, [CHR 0x01, CHR 0xFF])
   \<and> sample_array scenario_header [CHR 0x01, CHR 0xFF] = Inl ValueError
   \<and> parse_isf_data 1 (scenario_text @ [CHR 0x01, CHR 0xFF]) False = Inl ValueError"
  unfolding scenario_text_def scenario_header_def by code_simp

theorem sample_array_rows_witness:
  "\<exists>rows. parse_isf_data 1 scenario_buffer True = Inr (rows, Some scenario_header)
     \<and> length rows = 3
     \<and> rows ! 1 = (f64_add (f64_mul (f64_of_int 1) (Fin 1)) (Fin 0),
                    f64_add (f64_mul (f64_sub (f64_of_int (- 1)) (Fin 0)) (Fin 2)) (Fin 0))"
proof -
  let ?dt = "\<lparr>big_endian = False, signed = True, itemsize = 1\<rparr>"
  have split: "split_isf_header 1 scenario_buffer
      = Inr (scenario_header, [CHR 0x01, CHR 0xFF, CHR 0x02])"
    unfolding scenario_buffer_def scenario_text_def scenario_header_def by code_simp
  have f: "map_of scenario_header ''NR_PT'' = Some (HInt 3)"
    "map_of scenario_header ''PT_OFF'' = Some (HInt 0)"
    "map_of scenario_header ''XINCR'' = Some (HFloat (Fin 1))"
    "map_of scenario_header ''XZERO'' = Some (HFloat (Fin 0))"
    "map_of scenario_header ''YOFF'' = Some (HFloat (Fin 0))"
    "map_of scenario_header ''YMULT'' = Some (HFloat (Fin 2))"
    "map_of scenario_header ''YZERO'' = Some (HFloat (Fin 0))"
    "map_of scenario_header ''BYT_OR'' = Some (HStr ''LSB'')"
    "map_of scenario_header ''BN_FMT'' = Some (HStr ''RI'')"
    "map_of scenario_header ''BYT_NR'' = Some (HInt 1)"
    unfolding scenario_header_def by code_simp+
  have dt: "np_dtype (HStr ''LSB'' = HStr ''MSB'') (HStr ''RI'' = HStr ''RI'') (HInt 1) = Inr ?dt"
    by code_simp
  have raw: "np_fromstring [CHR 0x01, CHR 0xFF, CHR 0x02] ?dt = Inr [1, - 1, 2]"
    by code_simp
  have count: "int (length [1, - 1, 2 :: int]) = 3"
    by simp
  have int64: "- (2 ^ 63) \<le> (0 :: int)" "(0 :: int) < 2 ^ 63" "(3 :: int) - 0 \<le> 2 ^ 63"
    by simp_all
  from sample_array_rows [OF split f dt raw count int64, of True]
  obtain rows where r: "parse_isf_data 1 scenario_buffer True = Inr (rows, Some scenario_header)"
    "length rows = 3"
    "\<forall>i < nat 3. rows ! i =
       (f64_add (f64_mul (f64_of_int (int i - 0)) (Fin 1)) (Fin 0),
        f64_add (f64_mul (f64_sub (f64_of_int ([1, - 1, 2] ! i)) (Fin 0)) (Fin 2)) (Fin 0))"
    by auto
  from r(3) have "rows ! 1 = (f64_add (f64_mul (f64_of_int 1) (Fin 1)) (Fin 0),
      f64_add (f64_mul (f64_sub (f64_of_int (- 1)) (Fin 0)) (Fin 2)) (Fin 0))"
    by (simp add: numeral_3_eq_3)
  with r(1,2) show ?thesis by blast
qed

section \<open>Instances for the two header dialects\<close>

theorem prefix_text_in_value:
  "long_text [(True, ''BYT_NR'', ''1''), (False, ''WFID'', ''see :WFMPRE:'')]
     = '':WFMPRE:BYT_NR 1;WFID see :WFMPRE:''
   \<and> short_text [(True, ''BYT_NR'', ''1''), (False, ''WFID'', ''see :WFMPRE:'')]
     = '':WFMP:BYT_N 1;WFI see :WFMPRE:''
   \<and> parse_isf_header '':WFMPRE:BYT_NR 1;WFID see :WFMPRE:''
     = Inr (AList.update ''WFID'' (HStr ''see :WFMPRE:'')
             (AList.update ''BYT_NR'' (HInt 1) empty_header))
   \<and> parse_isf_header '':WFMP:BYT_N 1;WFI see :WFMPRE:''
     = Inr (AList.update ''WFID'' (HStr ''see :WFMPRE:'') empty_header)
   \<and> parse_isf_header (long_text [(True, ''BYT_NR'', ''1''), (False, ''WFID'', ''see :WFMPRE:'')])
     \<noteq> parse_isf_header (short_text [(True, ''BYT_NR'', ''1''), (False, ''WFID'', ''see :WFMPRE:'')])"
  by code_simp

theorem both_dialects_parse_alike_witness:
  "long_text [(True, ''BYT_NR'', ''1''), (False, ''XINCR'', ''4.0E-7''), (False, '':CURVE'', ''#13'')]
     = '':WFMPRE:BYT_NR 1;XINCR 4.0E-7;:CURVE #13''
   \<and> short_text [(True, ''BYT_NR'', ''1''), (False, ''XINCR'', ''4.0E-7''), (False, '':CURVE'', ''#13'')]
     = '':WFMP:BYT_N 1;XIN 4.0E-7;:CURV #13''
   \<and> parse_isf_header '':WFMPRE:BYT_NR 1;XINCR 4.0E-7;:CURVE #13''
     = parse_isf_header '':WFMP:BYT_N 1;XIN 4.0E-7;:CURV #13''"
proof -
  let ?fs = "[(True, ''BYT_NR'', ''1''), (False, ''XINCR'', ''4.0E-7''), (False, '':CURVE'', ''#13'')]"
  have w: "writable (True, ''BYT_NR'', ''1'')" "writable (False, ''XINCR'', ''4.0E-7'')"
    "writable (False, '':CURVE'', ''#13'')"
    by code_simp+
  then have all: "\<forall>f \<in> set ?fs. writable f"
    by simp
  have long: "long_text ?fs = '':WFMPRE:BYT_NR 1;XINCR 4.0E-7;:CURVE #13''"
    and short: "short_text ?fs = '':WFMP:BYT_N 1;XIN 4.0E-7;:CURV #13''"
    by code_simp+
  from both_dialects_parse_alike [OF all] long short show ?thesis
    by simp
qed

section \<open>Instances of the further properties\<close>

theorem env_header_recurses_witness:
  "split_isf_header 2 '':WFMP:PT_F ENV;:CURV #12zz:WFMP:PT_F Y;NR_P 7;:CURV #11q''
     = Inr (AList.update '':CURVE'' (HStr ''#11'')
              (AList.update ''NR_PT'' (HInt 7)
                (AList.update ''PT_FMT'' (HStr ''Y'') empty_header)), ''q'')"
proof -
  let ?d = "'':WFMP:PT_F ENV;:CURV #12zz:WFMP:PT_F Y;NR_P 7;:CURV #11q''"
  let ?h = "AList.update '':CURVE'' (HStr ''#12'')
      (AList.update ''PT_FMT'' (HStr ''ENV'') empty_header)"
  have off: "prefix_offset ?d = Inr 22"
    by code_simp
  have len: "length_prefix ?d 22 = Inr (2, 2)"
    by code_simp
  have hdr: "parse_isf_header (decode_latin1 (py_slice ?d 0 (22 + 2))) = Inr ?h"
    by code_simp
  have env: "map_of ?h ''PT_FMT'' = Some (HStr ''ENV'')"
    by code_simp
  have nested: "split_isf_header (Suc 0) (py_slice_from ?d (22 + 2 + 2))
      = Inr (AList.update '':CURVE'' (HStr ''#11'')
              (AList.update ''NR_PT'' (HInt 7)
                (AList.update ''PT_FMT'' (HStr ''Y'') empty_header)), ''q'')"
    by code_simp
  have two: "2 = Suc (Suc 0)"
    by simp
  from env_header_recurses [OF off len hdr env, of "Suc 0"] nested show ?thesis
    unfolding two by simp
qed

theorem piece_without_space_raises_witness:
  "header_pieces [] = [[]] \<and> parse_isf_header [] = Inl ValueError"
proof -
  have p: "header_pieces [] = [[]]"
    by code_simp
  then have "[] \<in> set (header_pieces [])"
    by simp
  from piece_without_space_raises [OF this] p show ?thesis
    by simp
qed

section \<open>Instances of the rounding\<close>

text \<open>
  \<^verbatim>\<open>float('0.1')\<close> is \<open>3602879701896397 / 2 ^ 55\<close>; \<^verbatim>\<open>0.1 + 0.2\<close> is
  \<^verbatim>\<open>0.30000000000000004\<close>; \<open>2 ^ 53 + 1\<close> rounds to the even neighbour.
\<close>

lemma rounding_examples:
  "py_float ''0.1'' = Inr (Fin (3602879701896397 / 36028797018963968))"
  "f64_add (Fin (3602879701896397 / 36028797018963968)) (Fin (3602879701896397 / 18014398509481984))
     = Fin (1351079888211149 / 4503599627370496)"
  "f64_of_int (2 ^ 53 + 1) = Fin (2 ^ 53)"
  by code_simp+

end
